theory Spec2Isabelle
  imports Complex_Main "HOL-Library.Code_Target_Numeral" "HOL-Library.Log_Nat"
begin

section \<open>Data model of \<^verbatim>\<open>src/pages/api/stats.ts\<close>\<close>

text \<open>
  The handler reads a GraphQL answer and reshapes it. The GraphQL \<^verbatim>\<open>Int\<close> fields
  (contribution counts, star counts, the weekday number) count things and are never negative:
  they are natural numbers here, and the sums the handler forms stay far below \<open>2^53\<close>, where
  the arithmetic of JavaScript numbers on integers is exact. A \<^verbatim>\<open>date\<close> is GitHub's ISO
  calendar date \<^verbatim>\<open>YYYY-MM-DD\<close>, which \<^verbatim>\<open>new Date\<close> reads as midnight UTC of that day; it is kept
  as its three numbers. The time zone of the runtime, which \<^verbatim>\<open>getMonth()\<close> consults, is a
  parameter of the model.
\<close>

record CalendarDate =
  year :: nat
  month :: nat
  dayOfMonth :: nat

record ContributionDay =
  contributionCount :: nat
  date :: CalendarDate
  weekday :: nat

record Repository =
  stargazerCount :: nat
  primaryLanguage :: "string option"

text \<open>The \<^verbatim>\<open>user\<close> object of the GraphQL answer: the calendar's total, its weeks (each a list
  of days) and the nodes of \<^verbatim>\<open>repositories\<close>.\<close>

record UserData =
  totalContributions :: nat
  weeks :: "ContributionDay list list"
  nodes :: "Repository list"

text \<open>A \<^verbatim>\<open>name\<close> is \<open>None\<close> where the array read that produces it is out of range
  (\<^verbatim>\<open>undefined\<close> in JavaScript).\<close>

record Peak =
  name :: "string option"
  commits :: int

record GitHubStats =
  longestStreak :: nat
  totalCommits :: nat
  commitRank :: string
  calendarData :: "ContributionDay list"
  mostActiveDay :: Peak
  mostActiveMonth :: Peak
  starsEarned :: nat
  topLanguages :: "string list"

section \<open>Commit rank and the name tables\<close>

definition getCommitRank :: "nat \<Rightarrow> string" where
  "getCommitRank total_commits =
     (if total_commits \<ge> 5000 then ''Top 0.5%-1%''
      else if total_commits \<ge> 2000 then ''Top 1%-3%''
      else if total_commits \<ge> 1000 then ''Top 5%-10%''
      else if total_commits \<ge> 500 then ''Top 10%-15%''
      else if total_commits \<ge> 200 then ''Top 25%-30%''
      else if total_commits \<ge> 50 then ''Median 50%''
      else ''Bottom 30%'')"

definition WEEKDAY_NAMES :: "string list" where
  "WEEKDAY_NAMES =
     [''Sunday'', ''Monday'', ''Tuesday'', ''Wednesday'', ''Thursday'', ''Friday'', ''Saturday'']"

definition MONTH_NAMES :: "string list" where
  "MONTH_NAMES =
     [''January'', ''February'', ''March'', ''April'', ''May'', ''June'', ''July'', ''August'',
      ''September'', ''October'', ''November'', ''December'']"

text \<open>Reading an array at an integer: \<^verbatim>\<open>undefined\<close> outside the array.\<close>

definition element :: "'a list \<Rightarrow> int \<Rightarrow> 'a option" where
  "element xs i = (if 0 \<le> i \<and> i < int (length xs) then Some (xs ! nat i) else None)"

section \<open>Numbers as property keys\<close>

definition digit_char :: "nat \<Rightarrow> char" where
  "digit_char d = char_of (48 + d)"

definition digit_val :: "char \<Rightarrow> nat" where
  "digit_val c = of_char c - 48"

definition is_digit :: "char \<Rightarrow> bool" where
  "is_digit c = (48 \<le> (of_char c :: nat) \<and> (of_char c :: nat) \<le> 57)"

text \<open>\<^verbatim>\<open>Number.prototype.toString\<close> on a non-negative integer: its decimal numeral.\<close>

fun toString :: "nat \<Rightarrow> string" where
  "toString n = (if n < 10 then [digit_char n] else toString (n div 10) @ [digit_char (n mod 10)])"

declare toString.simps [simp del]

text \<open>\<^verbatim>\<open>padStart(2, "0")\<close>.\<close>

definition padStart2 :: "string \<Rightarrow> string" where
  "padStart2 s = replicate (2 - length s) (CHR ''0'') @ s"

text \<open>\<^verbatim>\<open>parseInt\<close> on a string of decimal digits (the only strings the handler gives it).\<close>

definition parseInt :: "string \<Rightarrow> nat" where
  "parseInt s = foldl (\<lambda>n c. 10 * n + digit_val c) 0 s"

section \<open>Objects used as tallies\<close>

text \<open>
  A \<^verbatim>\<open>Record<string, number>\<close> that starts as \<^verbatim>\<open>{}\<close>: its own properties in the order of their
  creation. Assigning to an existing key keeps the key's place; a new key goes to the end.
  A read such as \<^verbatim>\<open>obj[k] || 0\<close> looks at own properties only, which is what JavaScript does
  for every key that \<^verbatim>\<open>Object.prototype\<close> does not define.
\<close>

type_synonym js_object = "(string \<times> nat) list"

fun set_prop :: "js_object \<Rightarrow> string \<Rightarrow> nat \<Rightarrow> js_object" where
  "set_prop [] k v = [(k, v)]"
| "set_prop ((k', v') # ps) k v =
     (if k' = k then (k, v) # ps else (k', v') # set_prop ps k v)"

text \<open>\<^verbatim>\<open>obj[k] || 0\<close>: a missing key and a stored \<open>0\<close> both give \<open>0\<close>.\<close>

definition get_or_zero :: "js_object \<Rightarrow> string \<Rightarrow> nat" where
  "get_or_zero obj k = (case map_of obj k of None \<Rightarrow> 0 | Some v \<Rightarrow> if v = 0 then 0 else v)"

text \<open>\<^verbatim>\<open>obj[k] = (obj[k] || 0) + c\<close>.\<close>

definition add_to :: "js_object \<Rightarrow> string \<Rightarrow> nat \<Rightarrow> js_object" where
  "add_to obj k c = set_prop obj k (get_or_zero obj k + c)"

text \<open>
  An array index is a canonical decimal numeral below \<open>2^32 - 1\<close>. \<^verbatim>\<open>Object.entries\<close>
  lists the own properties whose key is an array index first, in ascending numeric order, and
  after them the other string keys in the order of their creation.
\<close>

definition is_array_index :: "string \<Rightarrow> bool" where
  "is_array_index s =
     (s \<noteq> [] \<and> list_all is_digit s \<and> (hd s \<noteq> CHR ''0'' \<or> s = ''0'') \<and> parseInt s < 2 ^ 32 - 1)"

definition entries :: "js_object \<Rightarrow> (string \<times> nat) list" where
  "entries obj =
     sort_key (\<lambda>p. parseInt (fst p)) (filter (\<lambda>p. is_array_index (fst p)) obj)
     @ filter (\<lambda>p. \<not> is_array_index (fst p)) obj"

text \<open>\<^verbatim>\<open>.sort(([, a], [, b]) => b - a)\<close>: a stable sort, larger values first.\<close>

definition sort_desc :: "(string \<times> nat) list \<Rightarrow> (string \<times> nat) list" where
  "sort_desc es = sort_key (\<lambda>p. - int (snd p)) es"

text \<open>\<^verbatim>\<open>const [first] = Object.entries(obj).sort(...)\<close>: \<^verbatim>\<open>undefined\<close> for an empty object.\<close>

definition first_sorted :: "js_object \<Rightarrow> (string \<times> nat) option" where
  "first_sorted obj = (case sort_desc (entries obj) of [] \<Rightarrow> None | e # _ \<Rightarrow> Some e)"

section \<open>The aggregation\<close>

text \<open>The year boundary \<^verbatim>\<open>new Date("2024-01-01")\<close> and the comparison \<^verbatim>\<open>>=\<close> of two dates,
  which JavaScript makes on their timestamps.\<close>

definition boundary :: CalendarDate where
  "boundary = \<lparr>year = 2024, month = 1, dayOfMonth = 1\<rparr>"

definition on_or_after :: "CalendarDate \<Rightarrow> CalendarDate \<Rightarrow> bool" where
  "on_or_after a b =
     (year b < year a \<or>
      (year a = year b \<and> (month b < month a \<or> (month a = month b \<and> dayOfMonth b \<le> dayOfMonth a))))"

text \<open>\<^verbatim>\<open>weeks.flatMap(week => week.contributionDays).filter(day => new Date(day.date) >= ...)\<close>.\<close>

definition contributionDays :: "UserData \<Rightarrow> ContributionDay list" where
  "contributionDays userData =
     filter (\<lambda>day. on_or_after (date day) boundary) (concat (weeks userData))"

text \<open>
  \<^verbatim>\<open>new Date(day.date).getMonth() + 1\<close>: the month, in local time, of midnight UTC of the date.
  The time zone is given as \<^verbatim>\<open>getTimezoneOffset()\<close> gives it: \<open>tz d\<close> is the number of minutes
  by which local time is behind UTC at midnight UTC of the date \<open>d\<close> (300 in New York in
  winter, 0 in UTC, -60 in Berlin in winter); it may change with the date, as with daylight
  saving. A zone is less than a day away from UTC (\<open>zone_offsets\<close>): at or ahead of UTC the
  local day is the day of the date, and behind UTC it is the day before, which is in the month
  before when the date is the first of its month.
\<close>

definition zone_offsets :: "(CalendarDate \<Rightarrow> int) \<Rightarrow> ContributionDay list \<Rightarrow> bool" where
  "zone_offsets tz days = list_all (\<lambda>day. - 1440 < tz (date day) \<and> tz (date day) < 1440) days"

definition localMonth :: "(CalendarDate \<Rightarrow> int) \<Rightarrow> CalendarDate \<Rightarrow> nat" where
  "localMonth tz d =
     (if 0 < tz d \<and> dayOfMonth d = 1 then (if month d = 1 then 12 else month d - 1)
      else month d)"

definition monthKey :: "(CalendarDate \<Rightarrow> int) \<Rightarrow> ContributionDay \<Rightarrow> string" where
  "monthKey tz day = padStart2 (toString (localMonth tz (date day)))"

definition monthlyCommits :: "(CalendarDate \<Rightarrow> int) \<Rightarrow> ContributionDay list \<Rightarrow> js_object" where
  "monthlyCommits tz days =
     foldl (\<lambda>obj day. add_to obj (monthKey tz day) (contributionCount day)) [] days"

definition dailyCommits :: "ContributionDay list \<Rightarrow> js_object" where
  "dailyCommits days =
     foldl (\<lambda>obj day. add_to obj (toString (weekday day)) (contributionCount day)) [] days"

definition totalStars :: "Repository list \<Rightarrow> nat" where
  "totalStars repos = foldl (\<lambda>acc repo. acc + stargazerCount repo) 0 repos"

text \<open>\<^verbatim>\<open>if (repo.primaryLanguage?.name)\<close>: a repository without a primary language, or with an
  empty name, leaves the tally as it is.\<close>

definition languages :: "Repository list \<Rightarrow> js_object" where
  "languages repos =
     foldl (\<lambda>acc repo.
              case primaryLanguage repo of
                None \<Rightarrow> acc
              | Some lang \<Rightarrow> if lang = [] then acc else add_to acc lang 1)
           [] repos"

definition topLanguagesOf :: "Repository list \<Rightarrow> string list" where
  "topLanguagesOf repos = map fst (take 3 (sort_desc (entries (languages repos))))"

text \<open>The streak loop: the state is \<open>(currentStreak, maxStreak)\<close>.\<close>

fun streak_loop :: "ContributionDay list \<Rightarrow> nat \<times> nat \<Rightarrow> nat \<times> nat" where
  "streak_loop [] st = st"
| "streak_loop (day # days) (currentStreak, maxStreak) =
     (if contributionCount day > 0
      then streak_loop days (currentStreak + 1, max maxStreak (currentStreak + 1))
      else streak_loop days (0, maxStreak))"

definition maxStreakOf :: "ContributionDay list \<Rightarrow> nat" where
  "maxStreakOf days = snd (streak_loop days (0, 0))"

text \<open>
  The one place where the handler leaves the integers is
  \<^verbatim>\<open>Math.round(mostActiveDay[1] / (contributionDays.length / 7))\<close>: two divisions of doubles,
  each rounded to the nearest double, then \<^verbatim>\<open>Math.round\<close>, which is exact and takes a half
  upwards. A double is kept as the rational number it stands for. The rounding \<open>fl\<close> of the
  runtime's division is a parameter of the model; what the proofs use of it is the bound of
  \<open>rounds_to_nearest\<close>, the relative error \<open>2^-53\<close> of IEEE 754 binary64 (required here on a
  part of the range of normal doubles only).
\<close>

definition js_round :: "rat \<Rightarrow> int" where
  "js_round x = \<lfloor>x + 1 / 2\<rfloor>"


text \<open>
  The rounding of JavaScript itself: to the nearest number with a significand of 53 bits, a
  tie going to the even significand. With \<open>2^e \<le> |x| < 2^(e+1)\<close> the doubles around \<open>x\<close>
  are the multiples of \<open>2^(e-52)\<close>. Overflow and subnormal numbers are left out: the
  quotients of the handler are far from both.
\<close>

definition round_half_even :: "rat \<Rightarrow> int" where
  "round_half_even m =
     (let f = \<lfloor>m\<rfloor> in
      if m - of_int f < 1 / 2 then f
      else if 1 / 2 < m - of_int f then f + 1
      else if even f then f else f + 1)"

definition exponent :: "rat \<Rightarrow> int" where
  "exponent x =
     (let k = bitlen (fst (quotient_of x)) - bitlen (snd (quotient_of x))
      in if 2 powi k \<le> x then k else k - 1)"

definition binary64 :: "rat \<Rightarrow> rat" where
  "binary64 x =
     (if x = 0 then 0
      else let ulp = 2 powi (exponent \<bar>x\<bar> - 52)
           in sgn x * (of_int (round_half_even (\<bar>x\<bar> / ulp)) * ulp))"

datatype js_error = TypeError (message: string) | RequestError (message: string)

text \<open>What V8 says when a property of \<^verbatim>\<open>undefined\<close> or \<^verbatim>\<open>null\<close> is read.\<close>

definition cannot_read :: "string \<Rightarrow> string \<Rightarrow> js_error" where
  "cannot_read what prop =
     TypeError (''Cannot read properties of '' @ what @ '' (reading '' @ [CHR 0x27] @ prop
                @ [CHR 0x27] @ '')'')"

text \<open>
  The body of the \<^verbatim>\<open>try\<close> block from \<^verbatim>\<open>userData\<close> on. The two destructured entries are
  \<^verbatim>\<open>undefined\<close> for an empty tally, and the object literal reads \<^verbatim>\<open>mostActiveDay[0]\<close>
  first, \<^verbatim>\<open>mostActiveMonth[0]\<close> after it: the read of \<^verbatim>\<open>undefined\<close> throws.
\<close>

definition computeStats ::
  "(rat \<Rightarrow> rat) \<Rightarrow> (CalendarDate \<Rightarrow> int) \<Rightarrow> UserData \<Rightarrow> js_error + GitHubStats" where
  "computeStats fl tz userData =
     (let days = contributionDays userData in
      case first_sorted (dailyCommits days) of
        None \<Rightarrow> Inl (cannot_read ''undefined'' ''0'')
      | Some topDay \<Rightarrow>
          (case first_sorted (monthlyCommits tz days) of
             None \<Rightarrow> Inl (cannot_read ''undefined'' ''0'')
           | Some topMonth \<Rightarrow>
               Inr \<lparr>longestStreak = maxStreakOf days,
                    totalCommits = totalContributions userData,
                    commitRank = getCommitRank (totalContributions userData),
                    calendarData = days,
                    mostActiveDay =
                      \<lparr>name = element WEEKDAY_NAMES (int (parseInt (fst topDay))),
                       commits =
                         js_round (fl (of_nat (snd topDay) / fl (of_nat (length days) / 7)))\<rparr>,
                    mostActiveMonth =
                      \<lparr>name = element MONTH_NAMES (int (parseInt (fst topMonth)) - 1),
                       commits = int (snd topMonth)\<rparr>,
                    starsEarned = totalStars (nodes userData),
                    topLanguages = topLanguagesOf (nodes userData)\<rparr>))"

section \<open>The request handler\<close>

text \<open>
  A request is known by its \<^verbatim>\<open>username\<close> query parameter (\<open>None\<close> when the URL has none).
  \<^verbatim>\<open>octokit.graphql\<close> either rejects with an error or resolves to an answer whose \<^verbatim>\<open>user\<close>
  may be \<^verbatim>\<open>null\<close>. A response is a status and a JSON body; a property whose value is
  \<^verbatim>\<open>undefined\<close>, such as a \<open>name\<close> that is \<open>None\<close>, is missing from the JSON text. The
  handler returns its response together with the user names it has sent to the external API,
  in order.
\<close>

record Request =
  username :: "string option"

datatype upstream = Rejected js_error | Resolved "UserData option"

datatype body = StatsBody GitHubStats | ErrorBody string

record Response =
  status :: nat
  body :: body

text \<open>The \<^verbatim>\<open>catch\<close> block: \<^verbatim>\<open>error.message || "Failed to fetch GitHub statistics"\<close>, status 500.\<close>

definition caught :: "js_error \<Rightarrow> Response" where
  "caught e =
     \<lparr>status = 500,
      body = ErrorBody (if message e = [] then ''Failed to fetch GitHub statistics'' else message e)\<rparr>"

definition GET ::
  "(rat \<Rightarrow> rat) \<Rightarrow> (CalendarDate \<Rightarrow> int) \<Rightarrow> (string \<Rightarrow> upstream) \<Rightarrow> Request
     \<Rightarrow> Response \<times> string list" where
  "GET fl tz graphql request =
     (case username request of
        None \<Rightarrow> (\<lparr>status = 400, body = ErrorBody ''Username parameter is required''\<rparr>, [])
      | Some u \<Rightarrow>
          if u = [] then (\<lparr>status = 400, body = ErrorBody ''Username parameter is required''\<rparr>, [])
          else
            (case graphql u of
               Rejected e \<Rightarrow> (caught e, [u])
             | Resolved None \<Rightarrow> (caught (cannot_read ''null'' ''contributionsCollection''), [u])
             | Resolved (Some userData) \<Rightarrow>
                 (case computeStats fl tz userData of
                    Inl e \<Rightarrow> (caught e, [u])
                  | Inr stats \<Rightarrow> (\<lparr>status = 200, body = StatsBody stats\<rparr>, [u]))))"

section \<open>Notions used to state the properties\<close>

text \<open>A run of \<open>n\<close> consecutive days with a contribution, starting at position \<open>i\<close> of the list.\<close>

definition active_run :: "ContributionDay list \<Rightarrow> nat \<Rightarrow> nat \<Rightarrow> bool" where
  "active_run days i n =
     (i + n \<le> length days \<and> list_all (\<lambda>day. contributionCount day > 0) (take n (drop i days)))"

text \<open>The contributions of a weekday and of a month, summed over a list of days; the month
  of a day is its local month, as the handler takes it.\<close>

definition weekday_total :: "ContributionDay list \<Rightarrow> nat \<Rightarrow> nat" where
  "weekday_total days w = sum_list (map contributionCount (filter (\<lambda>day. weekday day = w) days))"

definition month_total :: "(CalendarDate \<Rightarrow> int) \<Rightarrow> ContributionDay list \<Rightarrow> nat \<Rightarrow> nat" where
  "month_total tz days m =
     sum_list (map contributionCount (filter (\<lambda>day. localMonth tz (date day) = m) days))"

text \<open>The position at which a value is first met in a list (the length of the list if it is
  never met), and the values of a list in the order in which they are first met.\<close>

definition first_pos :: "'a \<Rightarrow> 'a list \<Rightarrow> nat" where
  "first_pos x xs = length (takeWhile (\<lambda>y. y \<noteq> x) xs)"

fun first_seen :: "'a list \<Rightarrow> 'a list" where
  "first_seen [] = []"
| "first_seen (x # xs) = x # filter (\<lambda>y. y \<noteq> x) (first_seen xs)"

text \<open>The three tallies of the handler are instances of one loop: every element adds its
  amount under its key.\<close>

definition tally :: "('a \<Rightarrow> string) \<Rightarrow> ('a \<Rightarrow> nat) \<Rightarrow> 'a list \<Rightarrow> js_object" where
  "tally key amount xs = foldl (\<lambda>obj x. add_to obj (key x) (amount x)) [] xs"

definition key_total :: "('a \<Rightarrow> string) \<Rightarrow> ('a \<Rightarrow> nat) \<Rightarrow> 'a list \<Rightarrow> string \<Rightarrow> nat" where
  "key_total key amount xs k = sum_list (map amount (filter (\<lambda>x. key x = k) xs))"

text \<open>
  The order in which \<^verbatim>\<open>Object.entries\<close> lists two keys of a tally that was filled from the
  key sequence \<open>ks\<close>: array indices first, by their number; the other keys after them, in the
  order in which they are first met.
\<close>

definition key_before :: "string list \<Rightarrow> string \<Rightarrow> string \<Rightarrow> bool" where
  "key_before ks k k' =
     (if is_array_index k then (is_array_index k' \<longrightarrow> parseInt k < parseInt k')
      else (\<not> is_array_index k' \<and> first_pos k ks < first_pos k' ks))"

text \<open>The same order on the months of a day list, whose keys are \<^verbatim>\<open>"01"\<close> to \<^verbatim>\<open>"12"\<close>: the
  months 10 to 12 come first, ascending, then the months 1 to 9 as they are first met.\<close>

definition month_listed_before ::
  "(CalendarDate \<Rightarrow> int) \<Rightarrow> ContributionDay list \<Rightarrow> nat \<Rightarrow> nat \<Rightarrow> bool" where
  "month_listed_before tz days m m' =
     (if 10 \<le> m then (10 \<le> m' \<longrightarrow> m < m')
      else (m' < 10 \<and> first_pos m (map (\<lambda>day. localMonth tz (date day)) days)
                        < first_pos m' (map (\<lambda>day. localMonth tz (date day)) days)))"

text \<open>The first group with the largest total, among groups listed in some order.\<close>

fun first_max :: "('k \<times> nat) list \<Rightarrow> ('k \<times> nat) option" where
  "first_max [] = None"
| "first_max (e # es) =
     (case first_max es of
        None \<Rightarrow> Some e
      | Some m \<Rightarrow> if snd e < snd m then Some m else Some e)"

text \<open>Selection as the specification words it: the groups in the order in which their keys
  are first met, the first of the largest winning.\<close>

definition spec_mostActiveWeekday :: "ContributionDay list \<Rightarrow> (nat \<times> nat) option" where
  "spec_mostActiveWeekday days =
     first_max (map (\<lambda>w. (w, weekday_total days w)) (first_seen (map weekday days)))"

definition spec_mostActiveMonth ::
  "(CalendarDate \<Rightarrow> int) \<Rightarrow> ContributionDay list \<Rightarrow> (nat \<times> nat) option" where
  "spec_mostActiveMonth tz days =
     first_max (map (\<lambda>m. (m, month_total tz days m))
                  (first_seen (map (\<lambda>day. localMonth tz (date day)) days)))"

text \<open>The names of the primary languages, one for each repository that has one, and the top
  languages as the specification words them: counted per name, sorted by descending count,
  ties in the order in which the names are first met, the first three names.\<close>

definition language_names :: "Repository list \<Rightarrow> string list" where
  "language_names repos =
     concat (map (\<lambda>repo. case primaryLanguage repo of None \<Rightarrow> [] | Some lang \<Rightarrow> [lang]) repos)"

definition spec_topLanguages :: "Repository list \<Rightarrow> string list" where
  "spec_topLanguages repos =
     (let names = language_names repos in
      take 3 (map fst (sort_key (\<lambda>p. - int (snd p))
                         (map (\<lambda>lang. (lang, count_list names lang)) (first_seen names)))))"

text \<open>Among the names \<open>names\<close>, \<open>a\<close> ranks before \<open>b\<close>: it names more repositories, or as many
  and is met first.\<close>

definition ranks_before :: "string list \<Rightarrow> string \<Rightarrow> string \<Rightarrow> bool" where
  "ranks_before names a b =
     (count_list names b < count_list names a
      \<or> (count_list names a = count_list names b \<and> first_pos a names < first_pos b names))"

text \<open>The properties that \<^verbatim>\<open>Object.prototype\<close> defines: for these keys a read of \<^verbatim>\<open>{}\<close> does
  not give \<^verbatim>\<open>undefined\<close>. An ordinary name is non-empty, is not one of them and is not an
  array index, as the language names of GitHub are (\<^verbatim>\<open>TypeScript\<close>, \<^verbatim>\<open>C++\<close>, \<^verbatim>\<open>Jupyter Notebook\<close>).\<close>

definition object_prototype_keys :: "string list" where
  "object_prototype_keys =
     [''constructor'', ''__defineGetter__'', ''__defineSetter__'', ''hasOwnProperty'',
      ''__lookupGetter__'', ''__lookupSetter__'', ''isPrototypeOf'', ''propertyIsEnumerable'',
      ''toString'', ''valueOf'', ''__proto__'', ''toLocaleString'']"

definition ordinary_name :: "string \<Rightarrow> bool" where
  "ordinary_name s = (s \<noteq> [] \<and> \<not> is_array_index s \<and> s \<notin> set object_prototype_keys)"

section \<open>Example data\<close>

text \<open>Two time zones: UTC, and one that is five hours behind UTC all year.\<close>

definition utc :: "CalendarDate \<Rightarrow> int" where
  "utc d = 0"

definition five_hours_behind :: "CalendarDate \<Rightarrow> int" where
  "five_hours_behind d = 300"

definition mk_day :: "nat \<Rightarrow> nat \<Rightarrow> nat \<Rightarrow> nat \<Rightarrow> nat \<Rightarrow> ContributionDay" where
  "mk_day y m d w c =
     \<lparr>contributionCount = c, date = \<lparr>year = y, month = m, dayOfMonth = d\<rparr>, weekday = w\<rparr>"

definition mk_repo :: "nat \<Rightarrow> string option \<Rightarrow> Repository" where
  "mk_repo stars lang = \<lparr>stargazerCount = stars, primaryLanguage = lang\<rparr>"

text \<open>The first week of 2024 (1 January 2024 is a Monday), after the last day of 2023.\<close>

definition example_week :: "ContributionDay list" where
  "example_week =
     [mk_day 2024 1 1 1 3, mk_day 2024 1 2 2 1, mk_day 2024 1 3 3 0, mk_day 2024 1 4 4 2,
      mk_day 2024 1 5 5 0, mk_day 2024 1 6 6 0, mk_day 2024 1 7 0 3]"

definition example_repos :: "Repository list" where
  "example_repos =
     [mk_repo 10 (Some ''A''), mk_repo 5 (Some ''A''), mk_repo 3 None, mk_repo 2 (Some ''B''),
      mk_repo 1 (Some ''C''), mk_repo 0 (Some ''C''), mk_repo 0 (Some ''C'')]"

definition example_user :: UserData where
  "example_user =
     \<lparr>totalContributions = 18,
      weeks = [[mk_day 2023 12 31 0 9], example_week],
      nodes = example_repos\<rparr>"

definition example_stats :: GitHubStats where
  "example_stats =
     \<lparr>longestStreak = 2, totalCommits = 18, commitRank = ''Bottom 30%'',
      calendarData = example_week,
      mostActiveDay = \<lparr>name = Some ''Sunday'', commits = 3\<rparr>,
      mostActiveMonth = \<lparr>name = Some ''January'', commits = 9\<rparr>,
      starsEarned = 21, topLanguages = [''C'', ''A'', ''B'']\<rparr>"

definition example_user_without_repos :: UserData where
  "example_user_without_repos = example_user\<lparr>nodes := []\<rparr>"

text \<open>Users whose calendar has only days of 2023, only a day without contributions, and only
  days with contributions.\<close>

definition example_user_2023 :: UserData where
  "example_user_2023 =
     \<lparr>totalContributions = 12,
      weeks = [[mk_day 2023 12 30 6 3, mk_day 2023 12 31 0 9]],
      nodes = example_repos\<rparr>"

definition idle_user :: UserData where
  "idle_user = \<lparr>totalContributions = 0, weeks = [[mk_day 2024 1 1 1 0]], nodes = []\<rparr>"

definition busy_user :: UserData where
  "busy_user =
     \<lparr>totalContributions = 3, weeks = [[mk_day 2024 1 1 1 2, mk_day 2024 1 2 2 1]], nodes = []\<rparr>"

text \<open>A user record with a weekday number that is no weekday.\<close>

definition example_user_weekday7 :: UserData where
  "example_user_weekday7 =
     \<lparr>totalContributions = 2, weeks = [[mk_day 2024 1 1 7 2]], nodes = []\<rparr>"

text \<open>An external API that knows four users and rejects every other request.\<close>

definition example_graphql :: "string \<Rightarrow> upstream" where
  "example_graphql u =
     (if u = ''octocat'' then Resolved (Some example_user)
      else if u = ''ghost'' then Resolved None
      else if u = ''veteran'' then Resolved (Some example_user_2023)
      else if u = ''oddity'' then Resolved (Some example_user_weekday7)
      else Rejected (RequestError ''Bad credentials''))"

text \<open>A calendar with the first days of January, February, October and November 2024, three
  contributions on each.\<close>

definition example_months :: "ContributionDay list" where
  "example_months =
     [mk_day 2024 1 1 1 3, mk_day 2024 2 1 4 3, mk_day 2024 10 1 2 3, mk_day 2024 11 1 5 3]"

definition example_user_months :: UserData where
  "example_user_months = \<lparr>totalContributions = 12, weeks = [example_months], nodes = []\<rparr>"

definition example_stats_months :: GitHubStats where
  "example_stats_months =
     \<lparr>longestStreak = 4, totalCommits = 12, commitRank = ''Bottom 30%'',
      calendarData = example_months,
      mostActiveDay = \<lparr>name = Some ''Monday'', commits = 5\<rparr>,
      mostActiveMonth = \<lparr>name = Some ''October'', commits = 3\<rparr>,
      starsEarned = 0, topLanguages = []\<rparr>"

text \<open>Repositories whose language names are the numerals \<^verbatim>\<open>"2"\<close> and \<^verbatim>\<open>"1"\<close>, the second met
  first.\<close>

definition numeral_repos :: "Repository list" where
  "numeral_repos = [mk_repo 7 (Some ''2''), mk_repo 4 (Some ''1'')]"


text \<open>The last day of January 2024 with one contribution and the first of February with
  five.\<close>

definition example_user_february :: UserData where
  "example_user_february =
     \<lparr>totalContributions = 6,
      weeks = [[mk_day 2024 1 31 3 1, mk_day 2024 2 1 4 5]],
      nodes = []\<rparr>"

section \<open>Decimal numerals as keys\<close>

lemma digit_val_digit_char: "d < 10 \<Longrightarrow> digit_val (digit_char d) = d"
  by (simp add: digit_val_def digit_char_def)

lemma is_digit_digit_char: "d < 10 \<Longrightarrow> is_digit (digit_char d)"
  by (simp add: is_digit_def digit_char_def)

lemma digit_char_zero: "d < 10 \<Longrightarrow> digit_char d = CHR ''0'' \<longleftrightarrow> d = 0"
proof
  assume "d < 10" and "digit_char d = CHR ''0''"
  then have "digit_val (digit_char d) = digit_val (CHR ''0'')" by simp
  with \<open>d < 10\<close> show "d = 0" by (simp add: digit_val_digit_char) (simp add: digit_val_def)
next
  assume "d = 0"
  moreover have "digit_char 0 = CHR ''0''" by code_simp
  ultimately show "digit_char d = CHR ''0''" by simp
qed

lemma parseInt_snoc: "parseInt (s @ [c]) = 10 * parseInt s + digit_val c"
  by (simp add: parseInt_def)

lemma parseInt_toString: "parseInt (toString n) = n"
proof (induction n rule: toString.induct)
  case (1 n)
  show ?case
  proof (cases "n < 10")
    case True
    then show ?thesis
      by (subst toString.simps) (simp add: parseInt_def digit_val_digit_char)
  next
    case False
    with 1 show ?thesis
      by (subst toString.simps) (simp add: parseInt_snoc digit_val_digit_char)
  qed
qed

lemma toString_inj: "toString m = toString n \<longleftrightarrow> m = n"
  by (metis parseInt_toString)

lemma toString_not_Nil: "toString n \<noteq> []"
  by (subst toString.simps) simp

lemma toString_digits: "list_all is_digit (toString n)"
proof (induction n rule: toString.induct)
  case (1 n)
  show ?case
  proof (cases "n < 10")
    case True
    then show ?thesis by (subst toString.simps) (simp add: is_digit_digit_char)
  next
    case False
    with 1 show ?thesis by (subst toString.simps) (simp add: is_digit_digit_char)
  qed
qed

lemma hd_toString: "hd (toString n) = CHR ''0'' \<longleftrightarrow> n = 0"
proof (induction n rule: toString.induct)
  case (1 n)
  show ?case
  proof (cases "n < 10")
    case True
    then show ?thesis by (subst toString.simps) (simp add: digit_char_zero)
  next
    case False
    then have "n div 10 \<noteq> 0" by simp
    with False 1 show ?thesis
      by (subst toString.simps) (simp add: toString_not_Nil)
  qed
qed

lemma toString_0: "toString 0 = ''0''"
  by code_simp

lemma is_array_index_toString: "is_array_index (toString n) \<longleftrightarrow> n < 2 ^ 32 - 1"
proof (cases "n = 0")
  case True
  have "is_array_index ''0''" by code_simp
  with True show ?thesis by (simp add: toString_0)
next
  case False
  then show ?thesis
    by (simp add: is_array_index_def toString_not_Nil toString_digits parseInt_toString hd_toString)
qed

lemma parseInt_zeros: "parseInt (replicate k (CHR ''0'') @ s) = parseInt s"
proof (induction k)
  case 0
  then show ?case by simp
next
  case (Suc k)
  have "parseInt (CHR ''0'' # t) = parseInt t" for t
    by (simp add: parseInt_def digit_val_def)
  with Suc show ?case by simp
qed

lemma parseInt_monthKey: "parseInt (monthKey tz day) = localMonth tz (date day)"
  by (simp add: monthKey_def padStart2_def parseInt_zeros parseInt_toString)

lemma length_toString: "length (toString n) = 1 \<longleftrightarrow> n < 10"
proof (cases "n < 10")
  case True
  then show ?thesis by (subst toString.simps) simp
next
  case False
  then show ?thesis by (subst toString.simps) (simp add: toString_not_Nil)
qed

lemma is_array_index_monthKey:
  "is_array_index (monthKey tz day) \<longleftrightarrow> 10 \<le> localMonth tz (date day) \<and> localMonth tz (date day) < 2 ^ 32 - 1"
proof (cases "localMonth tz (date day) < 10")
  case True
  then have "toString (localMonth tz (date day)) = [digit_char (localMonth tz (date day))]"
    by (subst toString.simps) simp
  then have "monthKey tz day = [CHR ''0'', digit_char (localMonth tz (date day))]"
    by (simp add: monthKey_def padStart2_def)
  with True show ?thesis by (simp add: is_array_index_def)
next
  case False
  then have "length (toString (localMonth tz (date day))) \<noteq> 1"
    using length_toString [of "localMonth tz (date day)"] by blast
  moreover have "length (toString (localMonth tz (date day))) \<noteq> 0"
    by (simp add: toString_not_Nil)
  ultimately have "2 - length (toString (localMonth tz (date day))) = 0" by arith
  then have "monthKey tz day = toString (localMonth tz (date day))"
    by (simp add: monthKey_def padStart2_def)
  with False show ?thesis by (simp add: is_array_index_toString)
qed

lemma localMonth_range:
  "1 \<le> month d \<Longrightarrow> month d \<le> 12 \<Longrightarrow> 1 \<le> localMonth tz d \<and> localMonth tz d \<le> 12"
  by (auto simp: localMonth_def)


lemma localMonth_behind:
  "0 < tz d \<Longrightarrow> localMonth tz d
     = (if dayOfMonth d = 1 then (if month d = 1 then 12 else month d - 1) else month d)"
  by (simp add: localMonth_def)

section \<open>Tallies, entries and the first of the sorted entries\<close>

lemma map_fst_set_prop:
  "map fst (set_prop obj k v) = (if k \<in> fst ` set obj then map fst obj else map fst obj @ [k])"
  by (induction obj k v rule: set_prop.induct) auto

lemma map_of_set_prop: "map_of (set_prop obj k v) = (map_of obj)(k \<mapsto> v)"
  by (induction obj k v rule: set_prop.induct) auto

lemma get_or_zero_alt: "get_or_zero obj k = (case map_of obj k of None \<Rightarrow> 0 | Some v \<Rightarrow> v)"
  by (simp add: get_or_zero_def split: option.splits)

lemma tally_Nil [simp]: "tally key amount [] = []"
  by (simp add: tally_def)

lemma tally_snoc:
  "tally key amount (xs @ [x]) = add_to (tally key amount xs) (key x) (amount x)"
  by (simp add: tally_def)

lemma set_first_seen [simp]: "set (first_seen xs) = set xs"
  by (induction xs) auto

lemma distinct_first_seen [simp]: "distinct (first_seen xs)"
  by (induction xs) auto

lemma first_seen_snoc:
  "first_seen (xs @ [x]) = (if x \<in> set xs then first_seen xs else first_seen xs @ [x])"
  by (induction xs) auto

lemma keys_tally: "map fst (tally key amount xs) = first_seen (map key xs)"
proof (induction xs rule: rev_induct)
  case Nil
  then show ?case by simp
next
  case (snoc x xs)
  have "fst ` set (tally key amount xs) = key ` set xs"
    using snoc by (metis set_first_seen set_map)
  with snoc show ?case
    by (simp add: tally_snoc add_to_def map_fst_set_prop first_seen_snoc)
qed

lemma key_total_snoc:
  "key_total key amount (xs @ [x]) k =
     key_total key amount xs k + (if key x = k then amount x else 0)"
  by (simp add: key_total_def)

lemma key_total_absent: "k \<notin> key ` set xs \<Longrightarrow> key_total key amount xs k = 0"
proof -
  assume "k \<notin> key ` set xs"
  then have "filter (\<lambda>x. key x = k) xs = []"
    by (auto simp: filter_empty_conv)
  then show ?thesis by (simp add: key_total_def)
qed

lemma map_of_add_to:
  "map_of (add_to obj k c) k' =
     (if k' = k then Some ((case map_of obj k of None \<Rightarrow> 0 | Some v \<Rightarrow> v) + c) else map_of obj k')"
  by (simp add: add_to_def map_of_set_prop get_or_zero_alt)

lemma map_of_tally:
  "map_of (tally key amount xs) k =
     (if k \<in> key ` set xs then Some (key_total key amount xs k) else None)"
proof (induction xs rule: rev_induct)
  case Nil
  then show ?case by simp
next
  case (snoc x xs)
  show ?case
  proof (cases "k = key x")
    case True
    show ?thesis
    proof (cases "key x \<in> key ` set xs")
      case True
      with \<open>k = key x\<close> snoc show ?thesis
        by (simp add: tally_snoc map_of_add_to key_total_snoc)
    next
      case False
      with \<open>k = key x\<close> snoc show ?thesis
        by (simp add: tally_snoc map_of_add_to key_total_snoc key_total_absent)
    qed
  next
    case False
    with snoc show ?thesis
      by (simp add: tally_snoc map_of_add_to key_total_snoc)
  qed
qed

lemma distinct_keys_tally: "distinct (map fst (tally key amount xs))"
  by (simp add: keys_tally)

lemma tally_entry:
  "(k, v) \<in> set (tally key amount xs) \<longleftrightarrow> k \<in> key ` set xs \<and> v = key_total key amount xs k"
proof -
  have "(k, v) \<in> set (tally key amount xs) \<longleftrightarrow> map_of (tally key amount xs) k = Some v"
    by (simp add: distinct_keys_tally)
  then show ?thesis by (auto simp: map_of_tally)
qed

lemma tally_eq_Nil [simp]: "tally key amount xs = [] \<longleftrightarrow> xs = []"
  using keys_tally [of key amount xs] by (cases xs) auto

lemma set_entries [simp]: "set (entries obj) = set obj"
  by (auto simp: entries_def)

lemma entries_eq_Nil [simp]: "entries obj = [] \<longleftrightarrow> obj = []"
  by (metis set_entries set_empty)

lemma first_sorted_None [simp]: "first_sorted obj = None \<longleftrightarrow> obj = []"
proof -
  have "sort_desc (entries obj) = [] \<longleftrightarrow> obj = []"
    by (metis entries_eq_Nil length_0_conv length_sort sort_desc_def)
  then show ?thesis by (cases "sort_desc (entries obj)") (simp_all add: first_sorted_def)
qed

lemma first_sorted_Nil [simp]: "first_sorted [] = None"
  by (simp add: first_sorted_def entries_def sort_desc_def)

lemma first_sorted_Some_hd:
  "first_sorted obj = Some e \<longleftrightarrow> (\<exists>es. sort_desc (entries obj) = e # es)"
  by (auto simp: first_sorted_def split: list.splits)

lemma first_sorted_max:
  assumes "first_sorted obj = Some e"
  shows "e \<in> set obj" and "\<And>e'. e' \<in> set obj \<Longrightarrow> snd e' \<le> snd e"
proof -
  from assms obtain es where es: "sort_key (\<lambda>p. - int (snd p)) (entries obj) = e # es"
    by (auto simp: first_sorted_Some_hd sort_desc_def)
  then have "set (e # es) = set obj"
    by (metis set_entries set_sort)
  then show "e \<in> set obj" by auto
  fix e'
  assume "e' \<in> set obj"
  with \<open>set (e # es) = set obj\<close> have "e' \<in> set (e # es)" by simp
  moreover have "sorted (map (\<lambda>p. - int (snd p)) (e # es))"
    by (metis es sorted_sort_key)
  ultimately show "snd e' \<le> snd e" by auto
qed

lemma dailyCommits_tally: "dailyCommits days = tally (\<lambda>day. toString (weekday day)) contributionCount days"
  by (simp add: dailyCommits_def tally_def)

lemma monthlyCommits_tally: "monthlyCommits tz days = tally (monthKey tz) contributionCount days"
  by (simp add: monthlyCommits_def tally_def)

lemma computeStats_Inl:
  "contributionDays userData = [] \<Longrightarrow> computeStats fl tz userData = Inl (cannot_read ''undefined'' ''0'')"
  by (simp add: computeStats_def dailyCommits_tally)

lemma computeStats_succeeds:
  assumes "contributionDays userData \<noteq> []"
  shows "\<exists>stats. computeStats fl tz userData = Inr stats"
proof -
  from assms obtain topDay topMonth where
    "first_sorted (dailyCommits (contributionDays userData)) = Some topDay"
    "first_sorted (monthlyCommits tz (contributionDays userData)) = Some topMonth"
    by (metis first_sorted_None tally_eq_Nil dailyCommits_tally monthlyCommits_tally not_Some_eq)
  then show ?thesis by (simp add: computeStats_def Let_def)
qed

section \<open>What a successful aggregation returns\<close>

lemma computeStats_Inr:
  assumes "computeStats fl tz userData = Inr stats"
  obtains topDay topMonth where
    "first_sorted (dailyCommits (contributionDays userData)) = Some topDay"
    "first_sorted (monthlyCommits tz (contributionDays userData)) = Some topMonth"
    "stats =
       \<lparr>longestStreak = maxStreakOf (contributionDays userData),
        totalCommits = totalContributions userData,
        commitRank = getCommitRank (totalContributions userData),
        calendarData = contributionDays userData,
        mostActiveDay =
          \<lparr>name = element WEEKDAY_NAMES (int (parseInt (fst topDay))),
           commits = js_round (fl (of_nat (snd topDay)
                       / fl (of_nat (length (contributionDays userData)) / 7)))\<rparr>,
        mostActiveMonth =
          \<lparr>name = element MONTH_NAMES (int (parseInt (fst topMonth)) - 1),
           commits = int (snd topMonth)\<rparr>,
        starsEarned = totalStars (nodes userData),
        topLanguages = topLanguagesOf (nodes userData)\<rparr>"
  using assms unfolding computeStats_def Let_def
  by (auto split: option.splits)

lemma example_computeStats: "computeStats binary64 utc example_user = Inr example_stats"
  by code_simp

lemma example_months_computeStats: "computeStats binary64 utc example_user_months = Inr example_stats_months"
  by code_simp

section \<open>The longest streak\<close>

lemma active_run_Nil [simp]: "active_run [] i n \<longleftrightarrow> i = 0 \<and> n = 0"
  by (auto simp: active_run_def)

lemma active_run_zero [simp]: "active_run days i 0 \<longleftrightarrow> i \<le> length days"
  by (simp add: active_run_def)

lemma active_run_Cons_0 [simp]:
  "active_run (day # days) 0 (Suc n) \<longleftrightarrow> contributionCount day > 0 \<and> active_run days 0 n"
  by (auto simp: active_run_def)

lemma active_run_Cons_Suc [simp]:
  "active_run (day # days) (Suc i) n \<longleftrightarrow> active_run days i n"
  by (simp add: active_run_def)

lemma streak_loop_upper:
  "cur \<le> mx \<Longrightarrow> active_run days i n \<Longrightarrow>
   mx \<le> snd (streak_loop days (cur, mx)) \<and>
   (if i = 0 then cur + n else n) \<le> snd (streak_loop days (cur, mx))"
proof (induction days arbitrary: cur mx i n)
  case Nil
  then show ?case by simp
next
  case (Cons day days)
  show ?case
  proof (cases "contributionCount day > 0")
    case True
    note IH = Cons.IH [of "cur + 1" "max mx (cur + 1)"]
    show ?thesis
    proof (cases i)
      case 0
      show ?thesis
      proof (cases n)
        case 0
        with \<open>i = 0\<close> True IH [of 0 0] show ?thesis by simp
      next
        case (Suc n')
        with \<open>i = 0\<close> True Cons.prems IH [of 0 n'] show ?thesis by simp
      qed
    next
      case (Suc i')
      with True Cons.prems IH [of i' n] show ?thesis by (simp split: if_splits)
    qed
  next
    case False
    note IH = Cons.IH [of 0 mx]
    show ?thesis
    proof (cases i)
      case 0
      with False Cons.prems have "n = 0" by (cases n) simp_all
      with 0 False Cons.prems IH [of 0 0] show ?thesis by simp
    next
      case (Suc i')
      with False Cons.prems IH [of i' n] show ?thesis by (simp split: if_splits)
    qed
  qed
qed

lemma streak_loop_attained:
  "snd (streak_loop days (cur, mx)) = mx
   \<or> (\<exists>n. active_run days 0 n \<and> snd (streak_loop days (cur, mx)) = cur + n)
   \<or> (\<exists>i n. active_run days i n \<and> snd (streak_loop days (cur, mx)) = n)"
proof (induction days arbitrary: cur mx)
  case Nil
  then show ?case by simp
next
  case (Cons day days)
  show ?case
  proof (cases "contributionCount day > 0")
    case True
    define r where "r = snd (streak_loop days (cur + 1, max mx (cur + 1)))"
    have res: "snd (streak_loop (day # days) (cur, mx)) = r"
      using True by (simp add: r_def)
    from Cons.IH [of "cur + 1" "max mx (cur + 1)"]
    have "r = max mx (cur + 1) \<or> (\<exists>n. active_run days 0 n \<and> r = cur + 1 + n)
          \<or> (\<exists>i n. active_run days i n \<and> r = n)"
      by (simp add: r_def)
    then have "r = mx \<or> (\<exists>n. active_run (day # days) 0 n \<and> r = cur + n)
          \<or> (\<exists>i n. active_run (day # days) i n \<and> r = n)"
    proof (elim disjE exE conjE)
      assume "r = max mx (cur + 1)"
      then have "r = mx \<or> r = cur + Suc 0" by (simp add: max_def split: if_splits)
      moreover have "active_run (day # days) 0 (Suc 0)" using True by simp
      ultimately show ?thesis by blast
    next
      fix n
      assume "active_run days 0 n" and "r = cur + 1 + n"
      with True have "active_run (day # days) 0 (Suc n)" and "r = cur + Suc n" by simp_all
      then show ?thesis by blast
    next
      fix i n
      assume "active_run days i n" and r: "r = n"
      then have "active_run (day # days) (Suc i) n" by simp
      with r show ?thesis by blast
    qed
    with res show ?thesis by simp
  next
    case False
    define r where "r = snd (streak_loop days (0, mx))"
    have res: "snd (streak_loop (day # days) (cur, mx)) = r"
      using False by (simp add: r_def)
    from Cons.IH [of 0 mx]
    have "r = mx \<or> (\<exists>i n. active_run days i n \<and> r = n)"
      unfolding r_def by auto
    then have "r = mx \<or> (\<exists>i n. active_run (day # days) i n \<and> r = n)"
    proof (elim disjE exE conjE)
      assume "r = mx"
      then show ?thesis by simp
    next
      fix i n
      assume "active_run days i n" and r: "r = n"
      then have "active_run (day # days) (Suc i) n" by simp
      with r show ?thesis by blast
    qed
    with res show ?thesis by auto
  qed
qed

lemma maxStreakOf_upper: "active_run days i n \<Longrightarrow> n \<le> maxStreakOf days"
  using streak_loop_upper [of 0 0 days i n] by (simp add: maxStreakOf_def split: if_splits)

lemma maxStreakOf_attained: "\<exists>i. active_run days i (maxStreakOf days)"
proof -
  from streak_loop_attained [of days 0 0]
  have "maxStreakOf days = 0 \<or> (\<exists>i n. active_run days i n \<and> maxStreakOf days = n)"
    unfolding maxStreakOf_def by auto
  then show ?thesis
  proof (elim disjE exE conjE)
    assume "maxStreakOf days = 0"
    then have "active_run days 0 (maxStreakOf days)" by simp
    then show ?thesis ..
  next
    fix i n
    assume "active_run days i n" and "maxStreakOf days = n"
    then show ?thesis by auto
  qed
qed

lemma active_run_member:
  "active_run days i (Suc n) \<Longrightarrow> \<exists>day \<in> set days. contributionCount day > 0"
proof -
  assume a: "active_run days i (Suc n)"
  then have "i < length days" by (simp add: active_run_def)
  then have "take (Suc n) (drop i days) = days ! i # take n (drop (Suc i) days)"
    by (metis Cons_nth_drop_Suc take_Suc_Cons)
  with a \<open>i < length days\<close> show ?thesis by (auto simp: active_run_def)
qed

lemma active_run_whole:
  "list_all (\<lambda>day. contributionCount day \<noteq> 0) days \<Longrightarrow> active_run days 0 (length days)"
  by (simp add: active_run_def list_all_iff)

text \<open>
  C1. When the aggregation returns statistics, \<open>longestStreak\<close> is the greatest length of a
  run of consecutive days with a contribution in the filtered day list, taken in list order:
  a run of that length exists and no run is longer. If every day has count 0 it is 0, and if no
  day has count 0 it is the length of the list.
\<close>

theorem longestStreak_is_longest_run:
  assumes "computeStats fl tz userData = Inr stats"
    and "days = contributionDays userData"
  shows "(\<exists>i. active_run days i (longestStreak stats))
       \<and> (\<forall>i n. active_run days i n \<longrightarrow> n \<le> longestStreak stats)
       \<and> (list_all (\<lambda>day. contributionCount day = 0) days \<longrightarrow> longestStreak stats = 0)
       \<and> (list_all (\<lambda>day. contributionCount day \<noteq> 0) days \<longrightarrow> longestStreak stats = length days)"
proof -
  from assms have eq: "longestStreak stats = maxStreakOf days"
    by (auto elim: computeStats_Inr)
  obtain i where run: "active_run days i (maxStreakOf days)"
    using maxStreakOf_attained by blast
  have zero: "maxStreakOf days = 0" if "list_all (\<lambda>day. contributionCount day = 0) days"
  proof (cases "maxStreakOf days")
    case 0
    then show ?thesis .
  next
    case (Suc n)
    with run active_run_member [of days i n] that show ?thesis
      by (auto simp: list_all_iff)
  qed
  have full: "maxStreakOf days = length days"
    if "list_all (\<lambda>day. contributionCount day \<noteq> 0) days"
  proof -
    from that have "length days \<le> maxStreakOf days"
      by (intro maxStreakOf_upper [of days 0] active_run_whole)
    moreover from run have "maxStreakOf days \<le> length days"
      by (simp add: active_run_def)
    ultimately show ?thesis by simp
  qed
  from run zero full show ?thesis
    unfolding eq using maxStreakOf_upper by blast
qed

theorem longestStreak_is_longest_run_witness:
  "computeStats binary64 utc example_user = Inr example_stats
   \<and> example_week = contributionDays example_user
   \<and> (\<exists>i. active_run example_week i (longestStreak example_stats))
   \<and> active_run example_week 0 2 \<and> 2 \<le> longestStreak example_stats
   \<and> (\<exists>stats. computeStats binary64 utc idle_user = Inr stats
         \<and> list_all (\<lambda>day. contributionCount day = 0) (contributionDays idle_user)
         \<and> longestStreak stats = 0)
   \<and> (\<exists>stats. computeStats binary64 utc busy_user = Inr stats
         \<and> list_all (\<lambda>day. contributionCount day \<noteq> 0) (contributionDays busy_user)
         \<and> longestStreak stats = length (contributionDays busy_user))"
proof -
  have days: "example_week = contributionDays example_user"
    by code_simp
  have run: "active_run example_week 0 2"
    by code_simp
  have idle: "list_all (\<lambda>day. contributionCount day = 0) (contributionDays idle_user)"
    by code_simp
  have busy: "list_all (\<lambda>day. contributionCount day \<noteq> 0) (contributionDays busy_user)"
    by code_simp
  from idle have "contributionDays idle_user \<noteq> []" by code_simp
  then obtain stats0 where stats0: "computeStats binary64 utc idle_user = Inr stats0"
    using computeStats_succeeds by blast
  from busy have "contributionDays busy_user \<noteq> []" by code_simp
  then obtain stats1 where stats1: "computeStats binary64 utc busy_user = Inr stats1"
    using computeStats_succeeds by blast
  from longestStreak_is_longest_run [OF example_computeStats days]
    longestStreak_is_longest_run [OF stats0 refl] longestStreak_is_longest_run [OF stats1 refl]
  show ?thesis using example_computeStats days run idle busy stats0 stats1 by blast
qed

section \<open>The commit rank\<close>

text \<open>
  C2. \<open>getCommitRank\<close> follows the threshold table, read from the top with the first match
  winning: each label is returned exactly on its interval of totals, and 5000, 4999 and 0 map
  as the table says.
\<close>

theorem getCommitRank_table:
  "(5000 \<le> n \<longrightarrow> getCommitRank n = ''Top 0.5%-1%'')
   \<and> (2000 \<le> n \<and> n < 5000 \<longrightarrow> getCommitRank n = ''Top 1%-3%'')
   \<and> (1000 \<le> n \<and> n < 2000 \<longrightarrow> getCommitRank n = ''Top 5%-10%'')
   \<and> (500 \<le> n \<and> n < 1000 \<longrightarrow> getCommitRank n = ''Top 10%-15%'')
   \<and> (200 \<le> n \<and> n < 500 \<longrightarrow> getCommitRank n = ''Top 25%-30%'')
   \<and> (50 \<le> n \<and> n < 200 \<longrightarrow> getCommitRank n = ''Median 50%'')
   \<and> (n < 50 \<longrightarrow> getCommitRank n = ''Bottom 30%'')
   \<and> getCommitRank 5000 = ''Top 0.5%-1%''
   \<and> getCommitRank 4999 = ''Top 1%-3%''
   \<and> getCommitRank 0 = ''Bottom 30%''"
  by (simp add: getCommitRank_def)

theorem getCommitRank_table_witness:
  "getCommitRank 7000 = ''Top 0.5%-1%'' \<and> getCommitRank 2000 = ''Top 1%-3%''
   \<and> getCommitRank 1999 = ''Top 5%-10%'' \<and> getCommitRank 999 = ''Top 10%-15%''
   \<and> getCommitRank 200 = ''Top 25%-30%'' \<and> getCommitRank 50 = ''Median 50%''
   \<and> getCommitRank 49 = ''Bottom 30%''"
  using getCommitRank_table [of 7000] getCommitRank_table [of 2000] getCommitRank_table [of 1999]
    getCommitRank_table [of 999] getCommitRank_table [of 200] getCommitRank_table [of 50]
    getCommitRank_table [of 49]
  by simp

section \<open>Stars\<close>

lemma foldl_add_sum_list:
  "foldl (\<lambda>acc x. acc + f x) a xs = a + sum_list (map f xs)" for a :: nat
  by (induction xs arbitrary: a) simp_all

lemma totalStars_sum: "totalStars repos = sum_list (map stargazerCount repos)"
  by (simp add: totalStars_def foldl_add_sum_list)

text \<open>
  C6. \<open>starsEarned\<close> is the sum of \<open>stargazerCount\<close> over all fetched repositories, and it
  is 0 when there is none.
\<close>

theorem starsEarned_is_sum:
  assumes "computeStats fl tz userData = Inr stats"
  shows "starsEarned stats = sum_list (map stargazerCount (nodes userData))
       \<and> (nodes userData = [] \<longrightarrow> starsEarned stats = 0)"
  using assms by (auto elim!: computeStats_Inr simp: totalStars_sum)

theorem starsEarned_is_sum_witness:
  "computeStats binary64 utc example_user_without_repos = Inr (example_stats\<lparr>starsEarned := 0, topLanguages := []\<rparr>)
   \<and> nodes example_user_without_repos = []
   \<and> starsEarned (example_stats\<lparr>starsEarned := 0, topLanguages := []\<rparr>) = 0
   \<and> starsEarned (example_stats\<lparr>starsEarned := 0, topLanguages := []\<rparr>)
       = sum_list (map stargazerCount (nodes example_user_without_repos))"
proof -
  have run: "computeStats binary64 utc example_user_without_repos
             = Inr (example_stats\<lparr>starsEarned := 0, topLanguages := []\<rparr>)"
    by code_simp
  have none: "nodes example_user_without_repos = []"
    by code_simp
  from starsEarned_is_sum [OF run] run none show ?thesis by simp
qed

section \<open>The year filter\<close>

lemma on_or_after_boundary:
  "on_or_after d boundary \<longleftrightarrow>
     2024 < year d \<or> (year d = 2024 \<and> (1 < month d \<or> (month d = 1 \<and> 1 \<le> dayOfMonth d)))"
  by (auto simp: on_or_after_def boundary_def)

text \<open>
  C7. The day list that is returned as \<open>calendarData\<close> is the flattened list of fetched days
  restricted to the days on or after 1 January 2024, in their order; every aggregate of the
  statistics is computed from this list; no day of an earlier year is in it, and a fetched
  day with a calendar date (month and day at least 1) is in it exactly if its year is 2024 or
  later.
\<close>

theorem calendarData_is_filtered:
  assumes "computeStats fl tz userData = Inr stats"
  shows "calendarData stats
           = filter (\<lambda>day. on_or_after (date day) boundary) (concat (weeks userData))
       \<and> (\<forall>day \<in> set (calendarData stats). 2024 \<le> year (date day))
       \<and> (\<forall>day \<in> set (concat (weeks userData)).
             1 \<le> month (date day) \<and> 1 \<le> dayOfMonth (date day) \<longrightarrow>
             (day \<in> set (calendarData stats) \<longleftrightarrow> 2024 \<le> year (date day)))
       \<and> longestStreak stats = maxStreakOf (calendarData stats)
       \<and> (\<exists>topDay topMonth.
             first_sorted (dailyCommits (calendarData stats)) = Some topDay
           \<and> first_sorted (monthlyCommits tz (calendarData stats)) = Some topMonth
           \<and> mostActiveDay stats =
                \<lparr>name = element WEEKDAY_NAMES (int (parseInt (fst topDay))),
                 commits = js_round (fl (of_nat (snd topDay)
                             / fl (of_nat (length (calendarData stats)) / 7)))\<rparr>
           \<and> mostActiveMonth stats =
                \<lparr>name = element MONTH_NAMES (int (parseInt (fst topMonth)) - 1),
                 commits = int (snd topMonth)\<rparr>)"
proof -
  from assms obtain topDay topMonth where
    top: "first_sorted (dailyCommits (contributionDays userData)) = Some topDay"
      "first_sorted (monthlyCommits tz (contributionDays userData)) = Some topMonth"
    and stats: "stats =
       \<lparr>longestStreak = maxStreakOf (contributionDays userData),
        totalCommits = totalContributions userData,
        commitRank = getCommitRank (totalContributions userData),
        calendarData = contributionDays userData,
        mostActiveDay =
          \<lparr>name = element WEEKDAY_NAMES (int (parseInt (fst topDay))),
           commits = js_round (fl (of_nat (snd topDay)
                       / fl (of_nat (length (contributionDays userData)) / 7)))\<rparr>,
        mostActiveMonth =
          \<lparr>name = element MONTH_NAMES (int (parseInt (fst topMonth)) - 1),
           commits = int (snd topMonth)\<rparr>,
        starsEarned = totalStars (nodes userData),
        topLanguages = topLanguagesOf (nodes userData)\<rparr>"
    by (rule computeStats_Inr)
  have cal: "calendarData stats = contributionDays userData"
    by (simp add: stats)
  have filtered: "calendarData stats
      = filter (\<lambda>day. on_or_after (date day) boundary) (concat (weeks userData))"
    by (simp add: cal contributionDays_def)
  have late: "\<forall>day \<in> set (calendarData stats). 2024 \<le> year (date day)"
    unfolding filtered by (auto simp: on_or_after_boundary)
  have exact: "\<forall>day \<in> set (concat (weeks userData)).
      1 \<le> month (date day) \<and> 1 \<le> dayOfMonth (date day) \<longrightarrow>
      (day \<in> set (calendarData stats) \<longleftrightarrow> 2024 \<le> year (date day))"
    unfolding filtered by (auto simp: on_or_after_boundary)
  have streak: "longestStreak stats = maxStreakOf (calendarData stats)"
    by (simp add: stats)
  have peaks: "\<exists>topDay topMonth.
        first_sorted (dailyCommits (calendarData stats)) = Some topDay
      \<and> first_sorted (monthlyCommits tz (calendarData stats)) = Some topMonth
      \<and> mostActiveDay stats =
           \<lparr>name = element WEEKDAY_NAMES (int (parseInt (fst topDay))),
            commits = js_round (fl (of_nat (snd topDay)
                        / fl (of_nat (length (calendarData stats)) / 7)))\<rparr>
      \<and> mostActiveMonth stats =
           \<lparr>name = element MONTH_NAMES (int (parseInt (fst topMonth)) - 1),
            commits = int (snd topMonth)\<rparr>"
    using top unfolding cal by (intro exI [of _ topDay] exI [of _ topMonth]) (simp add: stats)
  from filtered late exact streak peaks show ?thesis by blast
qed

theorem calendarData_is_filtered_witness:
  "computeStats binary64 utc example_user = Inr example_stats
   \<and> calendarData example_stats = example_week
   \<and> concat (weeks example_user) = mk_day 2023 12 31 0 9 # example_week
   \<and> mk_day 2023 12 31 0 9 \<notin> set (calendarData example_stats)
   \<and> calendarData example_stats
       = filter (\<lambda>day. on_or_after (date day) boundary) (concat (weeks example_user))"
proof -
  have "calendarData example_stats = example_week"
    by code_simp
  moreover have "concat (weeks example_user) = mk_day 2023 12 31 0 9 # example_week"
    by code_simp
  moreover have "mk_day 2023 12 31 0 9 \<notin> set (calendarData example_stats)"
    by code_simp
  ultimately show ?thesis
    using calendarData_is_filtered [OF example_computeStats] example_computeStats by blast
qed

section \<open>The request handler\<close>

lemma caught_500: "\<exists>msg. msg \<noteq> [] \<and> caught e = \<lparr>status = 500, body = ErrorBody msg\<rparr>"
  by (simp add: caught_def)

text \<open>
  C8. A request whose \<open>username\<close> parameter is missing or empty is answered with status 400
  and a JSON error body, and nothing has been sent to the external API.
\<close>

theorem missing_username_400:
  assumes "username request = None \<or> username request = Some []"
  shows "GET fl tz graphql request
           = (\<lparr>status = 400, body = ErrorBody ''Username parameter is required''\<rparr>, [])"
  using assms by (auto simp: GET_def)

theorem missing_username_400_witness:
  "username \<lparr>username = None\<rparr> = None
   \<and> GET binary64 utc example_graphql \<lparr>username = None\<rparr>
       = (\<lparr>status = 400, body = ErrorBody ''Username parameter is required''\<rparr>, [])
   \<and> username \<lparr>username = Some []\<rparr> = Some []
   \<and> GET binary64 utc example_graphql \<lparr>username = Some []\<rparr>
       = (\<lparr>status = 400, body = ErrorBody ''Username parameter is required''\<rparr>, [])"
  using missing_username_400 [where request = "\<lparr>username = None\<rparr>" and fl = binary64
      and tz = utc and graphql = example_graphql]
    missing_username_400 [where request = "\<lparr>username = Some []\<rparr>" and fl = binary64
      and tz = utc and graphql = example_graphql]
  by simp

lemma element_Some: "n < length xs \<Longrightarrow> element xs (int n) = Some (xs ! n)"
  by (simp add: element_def)

lemma tally_member:
  "e \<in> set (tally key amount xs) \<Longrightarrow>
     fst e \<in> key ` set xs \<and> snd e = key_total key amount xs (fst e)"
  by (cases e) (simp add: tally_entry)

lemma peak_names_defined:
  assumes "computeStats fl tz userData = Inr stats"
    and "\<forall>day \<in> set (calendarData stats).
           weekday day < 7 \<and> 1 \<le> month (date day) \<and> month (date day) \<le> 12"
  shows "name (mostActiveDay stats) \<noteq> None \<and> name (mostActiveMonth stats) \<noteq> None"
proof -
  let ?days = "contributionDays userData"
  from assms(1) obtain topDay topMonth where
    top: "first_sorted (dailyCommits ?days) = Some topDay"
      "first_sorted (monthlyCommits tz ?days) = Some topMonth"
    and cal: "calendarData stats = ?days"
    and day: "name (mostActiveDay stats) = element WEEKDAY_NAMES (int (parseInt (fst topDay)))"
    and mon: "name (mostActiveMonth stats)
                = element MONTH_NAMES (int (parseInt (fst topMonth)) - 1)"
    by (rule computeStats_Inr) simp
  from top(1) have "topDay \<in> set (tally (\<lambda>day. toString (weekday day)) contributionCount ?days)"
    by (simp add: first_sorted_max(1) dailyCommits_tally)
  then have "fst topDay \<in> (\<lambda>day. toString (weekday day)) ` set ?days"
    by (simp add: tally_member)
  then obtain d where d: "d \<in> set ?days" "fst topDay = toString (weekday d)"
    by auto
  with assms(2) cal have "parseInt (fst topDay) < 7"
    by (simp add: parseInt_toString)
  then have "name (mostActiveDay stats) \<noteq> None"
    by (simp add: day element_def WEEKDAY_NAMES_def)
  from top(2) have "topMonth \<in> set (tally (monthKey tz) contributionCount ?days)"
    by (simp add: first_sorted_max(1) monthlyCommits_tally)
  then have "fst topMonth \<in> (monthKey tz) ` set ?days"
    by (simp add: tally_member)
  then obtain d' where d': "d' \<in> set ?days" "fst topMonth = monthKey tz d'"
    by auto
  with assms(2) cal have "1 \<le> month (date d') \<and> month (date d') \<le> 12"
    by simp
  then have "1 \<le> localMonth tz (date d') \<and> localMonth tz (date d') \<le> 12"
    using localMonth_range [where d = "date d'" and tz = tz] by simp
  with d' have "1 \<le> parseInt (fst topMonth) \<and> parseInt (fst topMonth) \<le> 12"
    by (simp add: parseInt_monthKey)
  then have "name (mostActiveMonth stats) \<noteq> None"
    by (simp add: mon element_def MONTH_NAMES_def)
  with \<open>name (mostActiveDay stats) \<noteq> None\<close> show ?thesis by simp
qed

text \<open>
  C9, as amended. When the call to the external API fails, or its answer has no user, the
  handler answers with status 500 and a JSON error body. Every response is either status 200
  with the statistics that the aggregation computed for the user, or status 400 or 500 with an
  error message. A user record that is present is not validated: a 200 response over days with
  weekdays 0 to 6 and months 1 to 12 has both peak names, and this is all that is promised of
  the completeness of a 200 response.
\<close>

theorem upstream_failure_500:
  "(username request = Some u \<and> u \<noteq> [] \<and> (graphql u = Rejected e \<or> graphql u = Resolved None)
      \<longrightarrow> (\<exists>msg. msg \<noteq> []
             \<and> GET fl tz graphql request = (\<lparr>status = 500, body = ErrorBody msg\<rparr>, [u])))
   \<and> ((\<exists>v userData stats. username request = Some v \<and> graphql v = Resolved (Some userData)
          \<and> computeStats fl tz userData = Inr stats
          \<and> fst (GET fl tz graphql request) = \<lparr>status = 200, body = StatsBody stats\<rparr>)
      \<or> (\<exists>code msg. (code = 400 \<or> code = 500) \<and> msg \<noteq> []
          \<and> fst (GET fl tz graphql request) = \<lparr>status = code, body = ErrorBody msg\<rparr>))
   \<and> (\<forall>stats. fst (GET fl tz graphql request) = \<lparr>status = 200, body = StatsBody stats\<rparr>
          \<and> (\<forall>day \<in> set (calendarData stats).
                 weekday day < 7 \<and> 1 \<le> month (date day) \<and> month (date day) \<le> 12)
        \<longrightarrow> name (mostActiveDay stats) \<noteq> None \<and> name (mostActiveMonth stats) \<noteq> None)"
proof (intro conjI impI allI)
  assume "username request = Some u \<and> u \<noteq> [] \<and> (graphql u = Rejected e \<or> graphql u = Resolved None)"
  then show "\<exists>msg. msg \<noteq> [] \<and> GET fl tz graphql request = (\<lparr>status = 500, body = ErrorBody msg\<rparr>, [u])"
    using caught_500 [of e] caught_500 [of "cannot_read ''null'' ''contributionsCollection''"]
    by (auto simp: GET_def)
next
  show "(\<exists>v userData stats. username request = Some v \<and> graphql v = Resolved (Some userData)
          \<and> computeStats fl tz userData = Inr stats
          \<and> fst (GET fl tz graphql request) = \<lparr>status = 200, body = StatsBody stats\<rparr>)
      \<or> (\<exists>code msg. (code = 400 \<or> code = 500) \<and> msg \<noteq> []
          \<and> fst (GET fl tz graphql request) = \<lparr>status = code, body = ErrorBody msg\<rparr>)"
  proof (cases "username request")
    case None
    then show ?thesis by (simp add: GET_def)
  next
    case (Some v)
    show ?thesis
    proof (cases "v = []")
      case True
      with Some show ?thesis by (simp add: GET_def)
    next
      case False
      show ?thesis
      proof (cases "graphql v")
        case (Rejected e')
        with Some False caught_500 [of e'] show ?thesis
          by (auto simp: GET_def)
      next
        case (Resolved answer)
        show ?thesis
        proof (cases answer)
          case None
          with Some False Resolved caught_500 [of "cannot_read ''null'' ''contributionsCollection''"]
          show ?thesis by (auto simp: GET_def)
        next
          case (Some userData)
          show ?thesis
          proof (cases "computeStats fl tz userData")
            case (Inl e')
            with \<open>username request = Some v\<close> False Resolved Some caught_500 [of e']
            show ?thesis by (auto simp: GET_def)
          next
            case (Inr stats)
            with \<open>username request = Some v\<close> False Resolved Some
            show ?thesis by (auto simp: GET_def)
          qed
        qed
      qed
    qed
  qed
next
  fix stats
  assume a: "fst (GET fl tz graphql request) = \<lparr>status = 200, body = StatsBody stats\<rparr>
    \<and> (\<forall>day \<in> set (calendarData stats).
           weekday day < 7 \<and> 1 \<le> month (date day) \<and> month (date day) \<le> 12)"
  then have "\<exists>userData. computeStats fl tz userData = Inr stats"
    by (auto simp: GET_def caught_def split: option.splits if_splits upstream.splits sum.splits)
  with a peak_names_defined show "name (mostActiveDay stats) \<noteq> None"
    and "name (mostActiveMonth stats) \<noteq> None"
    by blast+
qed

theorem upstream_failure_500_witness:
  "GET binary64 utc example_graphql \<lparr>username = Some ''nobody''\<rparr>
     = (\<lparr>status = 500, body = ErrorBody ''Bad credentials''\<rparr>, [''nobody''])
   \<and> example_graphql ''nobody'' = Rejected (RequestError ''Bad credentials'')
   \<and> example_graphql ''ghost'' = Resolved None
   \<and> (\<exists>msg. msg \<noteq> [] \<and> GET binary64 utc example_graphql \<lparr>username = Some ''ghost''\<rparr>
         = (\<lparr>status = 500, body = ErrorBody msg\<rparr>, [''ghost'']))
   \<and> GET binary64 utc example_graphql \<lparr>username = Some ''octocat''\<rparr>
       = (\<lparr>status = 200, body = StatsBody example_stats\<rparr>, [''octocat''])
   \<and> name (mostActiveDay example_stats) \<noteq> None \<and> name (mostActiveMonth example_stats) \<noteq> None"
proof -
  have nobody: "example_graphql ''nobody'' = Rejected (RequestError ''Bad credentials'')"
    by code_simp
  have ghost: "example_graphql ''ghost'' = Resolved None"
    by code_simp
  have r1: "GET binary64 utc example_graphql \<lparr>username = Some ''nobody''\<rparr>
     = (\<lparr>status = 500, body = ErrorBody ''Bad credentials''\<rparr>, [''nobody''])"
    by code_simp
  have r3: "GET binary64 utc example_graphql \<lparr>username = Some ''octocat''\<rparr>
       = (\<lparr>status = 200, body = StatsBody example_stats\<rparr>, [''octocat''])"
    by code_simp
  have valid: "\<forall>day \<in> set (calendarData example_stats).
      weekday day < 7 \<and> 1 \<le> month (date day) \<and> month (date day) \<le> 12"
    by code_simp
  from upstream_failure_500 [where request = "\<lparr>username = Some ''ghost''\<rparr>"
      and u = "''ghost''" and graphql = example_graphql and fl = binary64 and tz = utc] ghost
  have r2: "\<exists>msg. msg \<noteq> [] \<and> GET binary64 utc example_graphql \<lparr>username = Some ''ghost''\<rparr>
         = (\<lparr>status = 500, body = ErrorBody msg\<rparr>, [''ghost''])"
    by simp
  from upstream_failure_500 [where request = "\<lparr>username = Some ''octocat''\<rparr>"
      and u = "''octocat''" and graphql = example_graphql and fl = binary64 and tz = utc]
    r3 valid
  have r4: "name (mostActiveDay example_stats) \<noteq> None
          \<and> name (mostActiveMonth example_stats) \<noteq> None"
    by simp
  from nobody ghost r1 r2 r3 r4 show ?thesis by blast
qed

text \<open>
  C9 as stated fails for a malformed user record: a record whose only day has the weekday
  number 7 is answered with status 200, and the statistics in the answer lack the name of
  the most active day (\<^verbatim>\<open>WEEKDAY_NAMES[7]\<close> is \<^verbatim>\<open>undefined\<close>), where the claim promises
  status 500 and never a partial record.
\<close>

theorem malformed_weekday_counterexample:
  "example_graphql ''oddity'' = Resolved (Some example_user_weekday7)
   \<and> map weekday (concat (weeks example_user_weekday7)) = [7]
   \<and> GET binary64 utc example_graphql \<lparr>username = Some ''oddity''\<rparr>
       = (\<lparr>status = 200,
           body = StatsBody
             \<lparr>longestStreak = 1, totalCommits = 2, commitRank = ''Bottom 30%'',
              calendarData = [mk_day 2024 1 1 7 2],
              mostActiveDay = \<lparr>name = None, commits = 14\<rparr>,
              mostActiveMonth = \<lparr>name = Some ''January'', commits = 2\<rparr>,
              starsEarned = 0, topLanguages = []\<rparr>\<rparr>,
          [''oddity''])"
proof -
  have malformed: "example_graphql ''oddity'' = Resolved (Some example_user_weekday7)
      \<and> map weekday (concat (weeks example_user_weekday7)) = [7]"
    by code_simp
  have "GET binary64 utc example_graphql \<lparr>username = Some ''oddity''\<rparr>
       = (\<lparr>status = 200,
           body = StatsBody
             \<lparr>longestStreak = 1, totalCommits = 2, commitRank = ''Bottom 30%'',
              calendarData = [mk_day 2024 1 1 7 2],
              mostActiveDay = \<lparr>name = None, commits = 14\<rparr>,
              mostActiveMonth = \<lparr>name = Some ''January'', commits = 2\<rparr>,
              starsEarned = 0, topLanguages = []\<rparr>\<rparr>,
          [''oddity''])"
    by code_simp
  with malformed show ?thesis by blast
qed

text \<open>
  C10. When no fetched day is on or after the year boundary, the aggregation reads a property
  of \<^verbatim>\<open>undefined\<close> and throws; the \<^verbatim>\<open>catch\<close> block turns this into status 500 with an error
  message, after the one call to the external API. No statistics are returned.
\<close>

theorem empty_day_list_500:
  assumes "username request = Some u" and "u \<noteq> []"
    and "graphql u = Resolved (Some userData)"
    and "contributionDays userData = []"
  shows "computeStats fl tz userData = Inl (cannot_read ''undefined'' ''0'')
       \<and> (\<exists>msg. msg \<noteq> []
            \<and> GET fl tz graphql request = (\<lparr>status = 500, body = ErrorBody msg\<rparr>, [u]))
       \<and> (\<nexists>stats. body (fst (GET fl tz graphql request)) = StatsBody stats)"
proof -
  have thrown: "computeStats fl tz userData = Inl (cannot_read ''undefined'' ''0'')"
    using assms(4) by (rule computeStats_Inl)
  with assms have "GET fl tz graphql request = (caught (cannot_read ''undefined'' ''0''), [u])"
    by (simp add: GET_def)
  with thrown caught_500 [of "cannot_read ''undefined'' ''0''"] show ?thesis
    by auto
qed

theorem empty_day_list_500_witness:
  "username \<lparr>username = Some ''veteran''\<rparr> = Some ''veteran''
   \<and> example_graphql ''veteran'' = Resolved (Some example_user_2023)
   \<and> contributionDays example_user_2023 = []
   \<and> computeStats binary64 utc example_user_2023 = Inl (cannot_read ''undefined'' ''0'')
   \<and> status (fst (GET binary64 utc example_graphql \<lparr>username = Some ''veteran''\<rparr>)) = 500
   \<and> snd (GET binary64 utc example_graphql \<lparr>username = Some ''veteran''\<rparr>) = [''veteran'']"
proof -
  have user: "example_graphql ''veteran'' = Resolved (Some example_user_2023)"
    by code_simp
  have none: "contributionDays example_user_2023 = []"
    by code_simp
  have req: "username \<lparr>username = Some ''veteran''\<rparr> = Some ''veteran''"
    and name: "''veteran'' \<noteq> []"
    by simp_all
  from empty_day_list_500 [where request = "\<lparr>username = Some ''veteran''\<rparr>"
      and graphql = example_graphql and fl = binary64 and tz = utc, OF req name user none]
    user none
  show ?thesis by auto
qed

section \<open>The order of the entries and the stable sort\<close>

lemma insort_key_stable_order:
  assumes "sorted_wrt (\<lambda>a b. f a < f b \<or> (f a = f b \<and> B a b)) ys"
    and "\<forall>y \<in> set ys. B x y"
  shows "sorted_wrt (\<lambda>a b. f a < f b \<or> (f a = f b \<and> B a b)) (insort_key f x ys)"
  using assms
proof (induction ys)
  case Nil
  then show ?case by simp
next
  case (Cons y ys)
  show ?case
  proof (cases "f x \<le> f y")
    case True
    with Cons.prems show ?thesis by (auto simp: le_less)
  next
    case False
    with Cons show ?thesis by (auto simp: set_insort_key)
  qed
qed

lemma sort_key_stable_order:
  "sorted_wrt B xs \<Longrightarrow> sorted_wrt (\<lambda>a b. f a < f b \<or> (f a = f b \<and> B a b)) (sort_key f xs)"
  for f :: "'a \<Rightarrow> 'b::linorder"
proof (induction xs)
  case Nil
  then show ?case by simp
next
  case (Cons x xs)
  then show ?case by (simp add: insort_key_stable_order)
qed

lemma first_pos_Cons: "first_pos a (x # xs) = (if a = x then 0 else Suc (first_pos a xs))"
  by (simp add: first_pos_def)

lemma first_seen_order: "sorted_wrt (\<lambda>a b. first_pos a xs < first_pos b xs) (first_seen xs)"
proof (induction xs)
  case Nil
  then show ?case by simp
next
  case (Cons x xs)
  have "sorted_wrt (\<lambda>a b. first_pos a xs < first_pos b xs) (filter (\<lambda>y. y \<noteq> x) (first_seen xs))"
    using Cons by (rule sorted_wrt_filter)
  then have "sorted_wrt (\<lambda>a b. first_pos a (x # xs) < first_pos b (x # xs))
               (filter (\<lambda>y. y \<noteq> x) (first_seen xs))"
    by (rule sorted_wrt_mono_rel [rotated]) (simp add: first_pos_Cons)
  then show ?case by (simp add: first_pos_Cons)
qed

lemma first_pos_map:
  assumes "\<And>y. y \<in> set xs \<Longrightarrow> f y = f x \<longleftrightarrow> g y = g x"
  shows "first_pos (f x) (map f xs) = first_pos (g x) (map g xs)"
proof -
  have "takeWhile (\<lambda>y. f y \<noteq> f x) xs = takeWhile (\<lambda>y. g y \<noteq> g x) xs"
    using assms by (intro takeWhile_cong) auto
  then have "length (takeWhile ((\<lambda>k. k \<noteq> f x) \<circ> f) xs) = length (takeWhile ((\<lambda>k. k \<noteq> g x) \<circ> g) xs)"
    by (simp add: comp_def)
  then show ?thesis by (simp add: first_pos_def takeWhile_map)
qed

lemma entries_order:
  assumes inj: "inj_on parseInt (key ` set xs)"
  shows "sorted_wrt (\<lambda>a b. key_before (map key xs) (fst a) (fst b))
           (entries (tally key amount xs))"
proof -
  let ?obj = "tally key amount xs"
  let ?B = "\<lambda>a b. key_before (map key xs) (fst a) (fst b)"
  let ?idx = "filter (\<lambda>p. is_array_index (fst p)) ?obj"
  have keys: "fst ` set ?obj = key ` set xs"
    by (metis keys_tally set_first_seen set_map)
  have "distinct (map fst ?idx)"
    by (simp add: distinct_map_filter distinct_keys_tally)
  moreover have "inj_on parseInt (set (map fst ?idx))"
    using inj keys by (auto intro: inj_on_subset)
  ultimately have "distinct (map parseInt (map fst ?idx))"
    unfolding distinct_map [of parseInt "map fst ?idx"] by blast
  then have "distinct (map (\<lambda>p. parseInt (fst p)) (sort_key (\<lambda>p. parseInt (fst p)) ?idx))"
    by (simp add: comp_def distinct_map)
  then have "sorted_wrt (<) (map (\<lambda>p. parseInt (fst p)) (sort_key (\<lambda>p. parseInt (fst p)) ?idx))"
    by (simp add: strict_sorted_iff)
  then have "sorted_wrt (\<lambda>a b. parseInt (fst a) < parseInt (fst b))
               (sort_key (\<lambda>p. parseInt (fst p)) ?idx)"
    by (simp add: sorted_wrt_map)
  then have first: "sorted_wrt ?B (sort_key (\<lambda>p. parseInt (fst p)) ?idx)"
    by (rule sorted_wrt_mono_rel [rotated]) (auto simp: key_before_def)
  have "sorted_wrt (\<lambda>a b. first_pos a (map key xs) < first_pos b (map key xs)) (map fst ?obj)"
    by (simp add: keys_tally first_seen_order)
  then have "sorted_wrt (\<lambda>a b. first_pos (fst a) (map key xs) < first_pos (fst b) (map key xs)) ?obj"
    by (simp add: sorted_wrt_map)
  then have "sorted_wrt (\<lambda>a b. first_pos (fst a) (map key xs) < first_pos (fst b) (map key xs))
               (filter (\<lambda>p. \<not> is_array_index (fst p)) ?obj)"
    by (rule sorted_wrt_filter)
  then have second: "sorted_wrt ?B (filter (\<lambda>p. \<not> is_array_index (fst p)) ?obj)"
    by (rule sorted_wrt_mono_rel [rotated]) (auto simp: key_before_def)
  from first second show ?thesis
    by (auto simp: entries_def sorted_wrt_append key_before_def)
qed

lemma first_sorted_tally:
  assumes "xs \<noteq> []" and inj: "inj_on parseInt (key ` set xs)"
  shows "\<exists>x \<in> set xs.
           first_sorted (tally key amount xs) = Some (key x, key_total key amount xs (key x))
         \<and> (\<forall>y \<in> set xs.
               key_total key amount xs (key y) \<le> key_total key amount xs (key x)
             \<and> (key_total key amount xs (key y) = key_total key amount xs (key x) \<and> key y \<noteq> key x
                  \<longrightarrow> key_before (map key xs) (key x) (key y)))"
proof -
  let ?obj = "tally key amount xs"
  let ?f = "\<lambda>p :: string \<times> nat. - int (snd p)"
  let ?B = "\<lambda>a b. key_before (map key xs) (fst a) (fst b)"
  from assms(1) obtain e where e: "first_sorted ?obj = Some e"
    by (metis first_sorted_None tally_eq_Nil not_Some_eq)
  then obtain rest where sorted: "sort_key ?f (entries ?obj) = e # rest"
    by (auto simp: first_sorted_Some_hd sort_desc_def)
  have "sorted_wrt (\<lambda>a b. ?f a < ?f b \<or> (?f a = ?f b \<and> ?B a b)) (sort_key ?f (entries ?obj))"
    by (intro sort_key_stable_order entries_order inj)
  with sorted have after: "\<forall>e' \<in> set rest. snd e' < snd e \<or> (snd e' = snd e \<and> ?B e e')"
    by auto
  have members: "set (e # rest) = set ?obj"
    by (metis sorted set_entries set_sort)
  then have "e \<in> set ?obj" by auto
  then obtain x where x: "x \<in> set xs" "fst e = key x"
    and total: "snd e = key_total key amount xs (key x)"
    using tally_member [of e key amount xs] by auto
  have "key_total key amount xs (key y) \<le> snd e
      \<and> (key_total key amount xs (key y) = snd e \<and> key y \<noteq> fst e
            \<longrightarrow> key_before (map key xs) (fst e) (key y))" if "y \<in> set xs" for y
  proof -
    from that have "(key y, key_total key amount xs (key y)) \<in> set ?obj"
      by (simp add: tally_entry)
    with members have "(key y, key_total key amount xs (key y)) = e
        \<or> (key y, key_total key amount xs (key y)) \<in> set rest"
      by auto
    with after show ?thesis by auto
  qed
  with x total e show ?thesis
    by (intro bexI [of _ x]) (auto simp: prod_eq_iff)
qed

section \<open>The most active weekday and month\<close>

lemma weekday_key_inj: "inj_on parseInt ((\<lambda>day. toString (weekday day)) ` set days)"
  by (auto simp: inj_on_def parseInt_toString)

lemma weekday_key_total:
  "key_total (\<lambda>day. toString (weekday day)) contributionCount days (toString w)
     = weekday_total days w"
  by (simp add: key_total_def weekday_total_def toString_inj)

lemma weekday_key_before:
  "w < 7 \<Longrightarrow> w' < 7 \<Longrightarrow> key_before ks (toString w) (toString w') \<longleftrightarrow> w < w'"
  by (simp add: key_before_def is_array_index_toString parseInt_toString)

lemma monthKey_eq: "monthKey tz d = monthKey tz d' \<longleftrightarrow> localMonth tz (date d) = localMonth tz (date d')"
proof
  assume "monthKey tz d = monthKey tz d'"
  then have "parseInt (monthKey tz d) = parseInt (monthKey tz d')" by simp
  then show "localMonth tz (date d) = localMonth tz (date d')" by (simp add: parseInt_monthKey)
next
  assume "localMonth tz (date d) = localMonth tz (date d')"
  then show "monthKey tz d = monthKey tz d'" by (simp add: monthKey_def)
qed

lemma month_key_inj: "inj_on parseInt ((monthKey tz) ` set days)"
  by (auto simp: inj_on_def parseInt_monthKey monthKey_eq)

lemma month_key_total:
  "key_total (monthKey tz) contributionCount days (monthKey tz d) = month_total tz days (localMonth tz (date d))"
  by (simp add: key_total_def month_total_def monthKey_eq)

lemma month_key_before:
  assumes "localMonth tz (date d) \<le> 12" and "localMonth tz (date d') \<le> 12"
  shows "key_before (map (monthKey tz) days) (monthKey tz d) (monthKey tz d')
           \<longleftrightarrow> month_listed_before tz days (localMonth tz (date d)) (localMonth tz (date d'))"
proof -
  have pos: "first_pos (monthKey tz x) (map (monthKey tz) days)
               = first_pos (localMonth tz (date x)) (map (\<lambda>day. localMonth tz (date day)) days)" for x
    by (rule first_pos_map) (simp add: monthKey_eq)
  from assms show ?thesis
    by (auto simp: key_before_def month_listed_before_def is_array_index_monthKey
        parseInt_monthKey pos)
qed

lemma most_active_weekday:
  assumes "days \<noteq> []" and "\<forall>day \<in> set days. weekday day < 7"
  shows "\<exists>w \<in> weekday ` set days.
           first_sorted (dailyCommits days) = Some (toString w, weekday_total days w)
         \<and> (\<forall>w' \<in> weekday ` set days.
               weekday_total days w' \<le> weekday_total days w
             \<and> (weekday_total days w' = weekday_total days w \<longrightarrow> w \<le> w'))"
proof -
  let ?key = "\<lambda>day. toString (weekday day)"
  from first_sorted_tally [where key = ?key and amount = contributionCount,
      OF assms(1) weekday_key_inj]
  obtain x where x: "x \<in> set days"
    and top: "first_sorted (tally ?key contributionCount days)
                = Some (?key x, key_total ?key contributionCount days (?key x))"
    and best: "\<And>y. y \<in> set days \<Longrightarrow>
        key_total ?key contributionCount days (?key y) \<le> key_total ?key contributionCount days (?key x)
      \<and> (key_total ?key contributionCount days (?key y) = key_total ?key contributionCount days (?key x)
           \<and> ?key y \<noteq> ?key x \<longrightarrow> key_before (map ?key days) (?key x) (?key y))"
    by blast
  have "weekday_total days (weekday y) \<le> weekday_total days (weekday x)
      \<and> (weekday_total days (weekday y) = weekday_total days (weekday x)
           \<longrightarrow> weekday x \<le> weekday y)" if "y \<in> set days" for y
  proof (cases "weekday y = weekday x")
    case True
    then show ?thesis by simp
  next
    case False
    with best [OF that] assms(2) x that show ?thesis
      by (auto simp: weekday_key_total toString_inj weekday_key_before)
  qed
  with x top show ?thesis
    by (intro bexI [of _ "weekday x"]) (auto simp: dailyCommits_tally weekday_key_total)
qed

lemma most_active_month:
  assumes "days \<noteq> []" and "\<forall>day \<in> set days. localMonth tz (date day) \<le> 12"
  shows "\<exists>d \<in> set days.
           first_sorted (monthlyCommits tz days) = Some (monthKey tz d, month_total tz days (localMonth tz (date d)))
         \<and> (\<forall>m' \<in> (\<lambda>day. localMonth tz (date day)) ` set days.
               month_total tz days m' \<le> month_total tz days (localMonth tz (date d))
             \<and> (month_total tz days m' = month_total tz days (localMonth tz (date d)) \<and> m' \<noteq> localMonth tz (date d)
                  \<longrightarrow> month_listed_before tz days (localMonth tz (date d)) m'))"
proof -
  from first_sorted_tally [where key = "monthKey tz" and amount = contributionCount,
      OF assms(1) month_key_inj]
  obtain x where x: "x \<in> set days"
    and top: "first_sorted (tally (monthKey tz) contributionCount days)
                = Some (monthKey tz x, key_total (monthKey tz) contributionCount days (monthKey tz x))"
    and best: "\<And>y. y \<in> set days \<Longrightarrow>
        key_total (monthKey tz) contributionCount days (monthKey tz y)
          \<le> key_total (monthKey tz) contributionCount days (monthKey tz x)
      \<and> (key_total (monthKey tz) contributionCount days (monthKey tz y)
            = key_total (monthKey tz) contributionCount days (monthKey tz x)
           \<and> monthKey tz y \<noteq> monthKey tz x \<longrightarrow> key_before (map (monthKey tz) days) (monthKey tz x) (monthKey tz y))"
    by blast
  have "month_total tz days (localMonth tz (date y)) \<le> month_total tz days (localMonth tz (date x))
      \<and> (month_total tz days (localMonth tz (date y)) = month_total tz days (localMonth tz (date x))
           \<and> localMonth tz (date y) \<noteq> localMonth tz (date x)
           \<longrightarrow> month_listed_before tz days (localMonth tz (date x)) (localMonth tz (date y)))"
    if "y \<in> set days" for y
    using best [OF that] assms(2) x that
    by (auto simp: month_key_total monthKey_eq month_key_before)
  with x top show ?thesis
    by (intro bexI [of _ x]) (auto simp: monthlyCommits_tally month_key_total)
qed

text \<open>
  C3, as amended. For a day list with weekdays 0 to 6 and months 1 to 12, in any time zone of
  the runtime, each of the two aggregations selects a group whose summed count is the largest;
  the month of a day is its local month \<open>localMonth tz\<close>, which behind UTC is the month before
  for the first day of a month. Among tied groups the winner is the first in the entry order of
  the tally object, not the first met: of tied weekdays the one with the smallest number wins;
  of tied months, the smallest of the months 10 to 12 wins if one of them is tied, and
  otherwise the tied month that is met first in the list.
\<close>

theorem most_active_selection:
  assumes "computeStats fl tz userData = Inr stats"
    and "days = contributionDays userData"
    and "\<forall>day \<in> set days. weekday day < 7 \<and> 1 \<le> month (date day) \<and> month (date day) \<le> 12"
    and "zone_offsets tz days"
  shows "\<exists>w m. w \<in> weekday ` set days \<and> m \<in> (\<lambda>day. localMonth tz (date day)) ` set days
       \<and> name (mostActiveDay stats) = Some (WEEKDAY_NAMES ! w)
       \<and> (\<forall>w' \<in> weekday ` set days.
             weekday_total days w' \<le> weekday_total days w
           \<and> (weekday_total days w' = weekday_total days w \<longrightarrow> w \<le> w'))
       \<and> name (mostActiveMonth stats) = Some (MONTH_NAMES ! (m - 1))
       \<and> commits (mostActiveMonth stats) = int (month_total tz days m)
       \<and> (\<forall>m' \<in> (\<lambda>day. localMonth tz (date day)) ` set days.
             month_total tz days m' \<le> month_total tz days m
           \<and> (month_total tz days m' = month_total tz days m \<and> m' \<noteq> m
                \<longrightarrow> month_listed_before tz days m m'))"
proof -
  from assms(1) obtain topDay topMonth where
    top: "first_sorted (dailyCommits (contributionDays userData)) = Some topDay"
      "first_sorted (monthlyCommits tz (contributionDays userData)) = Some topMonth"
    and day: "name (mostActiveDay stats) = element WEEKDAY_NAMES (int (parseInt (fst topDay)))"
    and mon: "name (mostActiveMonth stats)
                = element MONTH_NAMES (int (parseInt (fst topMonth)) - 1)"
      "commits (mostActiveMonth stats) = int (snd topMonth)"
    by (rule computeStats_Inr) simp
  from top(1) have nonempty: "days \<noteq> []"
    using assms(2) dailyCommits_tally by fastforce
  from most_active_weekday [OF nonempty] assms(3)
  obtain w where w: "w \<in> weekday ` set days"
    and wtop: "first_sorted (dailyCommits days) = Some (toString w, weekday_total days w)"
    and wbest: "\<forall>w' \<in> weekday ` set days.
        weekday_total days w' \<le> weekday_total days w
      \<and> (weekday_total days w' = weekday_total days w \<longrightarrow> w \<le> w')"
    by blast
  have local: "1 \<le> localMonth tz (date day) \<and> localMonth tz (date day) \<le> 12"
    if "day \<in> set days" for day
    using that assms(3) localMonth_range [where d = "date day" and tz = tz] by simp
  then have months: "\<forall>day \<in> set days. localMonth tz (date day) \<le> 12"
    by simp
  from most_active_month [OF nonempty months]
  obtain d where d: "d \<in> set days"
    and mtop: "first_sorted (monthlyCommits tz days)
                 = Some (monthKey tz d, month_total tz days (localMonth tz (date d)))"
    and mbest: "\<forall>m' \<in> (\<lambda>day. localMonth tz (date day)) ` set days.
        month_total tz days m' \<le> month_total tz days (localMonth tz (date d))
      \<and> (month_total tz days m' = month_total tz days (localMonth tz (date d)) \<and> m' \<noteq> localMonth tz (date d)
           \<longrightarrow> month_listed_before tz days (localMonth tz (date d)) m')"
    by blast
  from w assms(3) have "w < 7" by auto
  with top(1) wtop assms(2) have wname: "name (mostActiveDay stats) = Some (WEEKDAY_NAMES ! w)"
    by (simp add: day parseInt_toString element_def WEEKDAY_NAMES_def)
  from d local have range: "1 \<le> localMonth tz (date d)" "localMonth tz (date d) \<le> 12"
    by simp_all
  then have "element MONTH_NAMES (int (localMonth tz (date d)) - 1) = Some (MONTH_NAMES ! (localMonth tz (date d) - 1))"
    by (simp add: element_def MONTH_NAMES_def nat_diff_distrib')
  with top(2) mtop assms(2)
  have mname: "name (mostActiveMonth stats) = Some (MONTH_NAMES ! (localMonth tz (date d) - 1))"
    and mcommits: "commits (mostActiveMonth stats) = int (month_total tz days (localMonth tz (date d)))"
    by (simp_all add: mon parseInt_monthKey)
  from d have "localMonth tz (date d) \<in> (\<lambda>day. localMonth tz (date day)) ` set days" by simp
  with w wname wbest mname mcommits mbest show ?thesis by blast
qed

theorem most_active_selection_witness:
  "computeStats binary64 utc example_user = Inr example_stats
   \<and> example_week = contributionDays example_user
   \<and> list_all (\<lambda>day. weekday day < 7 \<and> 1 \<le> month (date day) \<and> month (date day) \<le> 12) example_week
   \<and> zone_offsets utc example_week \<and> zone_offsets utc example_months
   \<and> (\<exists>w m. w \<in> weekday ` set example_week \<and> m \<in> (\<lambda>day. localMonth utc (date day)) ` set example_week
       \<and> name (mostActiveDay example_stats) = Some (WEEKDAY_NAMES ! w)
       \<and> (\<forall>w' \<in> weekday ` set example_week.
             weekday_total example_week w' \<le> weekday_total example_week w
           \<and> (weekday_total example_week w' = weekday_total example_week w \<longrightarrow> w \<le> w'))
       \<and> name (mostActiveMonth example_stats) = Some (MONTH_NAMES ! (m - 1))
       \<and> commits (mostActiveMonth example_stats) = int (month_total utc example_week m)
       \<and> (\<forall>m' \<in> (\<lambda>day. localMonth utc (date day)) ` set example_week.
             month_total utc example_week m' \<le> month_total utc example_week m
           \<and> (month_total utc example_week m' = month_total utc example_week m \<and> m' \<noteq> m
                \<longrightarrow> month_listed_before utc example_week m m')))
   \<and> weekday_total example_week 1 = weekday_total example_week 0
   \<and> name (mostActiveDay example_stats) = Some (WEEKDAY_NAMES ! 0)
   \<and> computeStats binary64 utc example_user_months = Inr example_stats_months
   \<and> example_months = contributionDays example_user_months
   \<and> month_total utc example_months 1 = month_total utc example_months 10
   \<and> month_listed_before utc example_months 10 1
   \<and> (\<exists>m. name (mostActiveMonth example_stats_months) = Some (MONTH_NAMES ! (m - 1))
         \<and> commits (mostActiveMonth example_stats_months) = int (month_total utc example_months m))
   \<and> zone_offsets five_hours_behind (contributionDays example_user_february)
   \<and> (\<exists>stats m. computeStats binary64 five_hours_behind example_user_february = Inr stats
         \<and> m \<in> (\<lambda>day. localMonth five_hours_behind (date day))
                 ` set (contributionDays example_user_february)
         \<and> name (mostActiveMonth stats) = Some (MONTH_NAMES ! (m - 1))
         \<and> commits (mostActiveMonth stats)
             = int (month_total five_hours_behind (contributionDays example_user_february) m))
   \<and> map (\<lambda>day. localMonth five_hours_behind (date day)) (contributionDays example_user_february)
       = [1, 1]
   \<and> map (\<lambda>day. localMonth utc (date day)) (contributionDays example_user_february) = [1, 2]
   \<and> map_sum (\<lambda>e. e) mostActiveMonth
         (computeStats binary64 five_hours_behind example_user_february)
       = Inr \<lparr>name = Some ''January'', commits = 6\<rparr>
   \<and> map_sum (\<lambda>e. e) mostActiveMonth (computeStats binary64 utc example_user_february)
       = Inr \<lparr>name = Some ''February'', commits = 5\<rparr>"
proof -
  let ?feb = "contributionDays example_user_february"
  have nonempty3: "?feb \<noteq> []"
    by code_simp
  have valid3: "\<forall>day \<in> set ?feb.
      weekday day < 7 \<and> 1 \<le> month (date day) \<and> month (date day) \<le> 12"
    by code_simp
  have zone3: "zone_offsets five_hours_behind ?feb"
    by code_simp
  have local3: "map (\<lambda>day. localMonth five_hours_behind (date day)) ?feb = [1, 1]
      \<and> map (\<lambda>day. localMonth utc (date day)) ?feb = [1, 2]"
    by code_simp
  have peak3: "map_sum (\<lambda>e. e) mostActiveMonth
         (computeStats binary64 five_hours_behind example_user_february)
       = Inr \<lparr>name = Some ''January'', commits = 6\<rparr>
      \<and> map_sum (\<lambda>e. e) mostActiveMonth (computeStats binary64 utc example_user_february)
       = Inr \<lparr>name = Some ''February'', commits = 5\<rparr>"
    by code_simp
  from nonempty3 obtain stats3
    where stats3: "computeStats binary64 five_hours_behind example_user_february = Inr stats3"
    using computeStats_succeeds by blast
  from most_active_selection [OF stats3 refl valid3 zone3]
  have "\<exists>m. m \<in> (\<lambda>day. localMonth five_hours_behind (date day)) ` set ?feb
      \<and> name (mostActiveMonth stats3) = Some (MONTH_NAMES ! (m - 1))
      \<and> commits (mostActiveMonth stats3) = int (month_total five_hours_behind ?feb m)"
    by blast
  with stats3 have behind:
    "\<exists>stats m. computeStats binary64 five_hours_behind example_user_february = Inr stats
      \<and> m \<in> (\<lambda>day. localMonth five_hours_behind (date day)) ` set ?feb
      \<and> name (mostActiveMonth stats) = Some (MONTH_NAMES ! (m - 1))
      \<and> commits (mostActiveMonth stats) = int (month_total five_hours_behind ?feb m)"
    by blast
  have days: "example_week = contributionDays example_user"
    by code_simp
  have valid: "list_all (\<lambda>day. weekday day < 7 \<and> 1 \<le> month (date day) \<and> month (date day) \<le> 12)
      example_week"
    by code_simp
  then have valid': "\<forall>day \<in> set example_week.
      weekday day < 7 \<and> 1 \<le> month (date day) \<and> month (date day) \<le> 12"
    by (simp add: list_all_iff)
  have tie: "weekday_total example_week 1 = weekday_total example_week 0"
    by code_simp
  have sunday: "name (mostActiveDay example_stats) = Some (WEEKDAY_NAMES ! 0)"
    by code_simp
  have days2: "example_months = contributionDays example_user_months"
    by code_simp
  have valid2: "\<forall>day \<in> set example_months.
      weekday day < 7 \<and> 1 \<le> month (date day) \<and> month (date day) \<le> 12"
    by code_simp
  have tie2: "month_total utc example_months 1 = month_total utc example_months 10
      \<and> month_listed_before utc example_months 10 1"
    by code_simp
  have zone: "zone_offsets utc example_week" and zone2: "zone_offsets utc example_months"
    by code_simp+
  from most_active_selection [OF example_months_computeStats days2 valid2 zone2]
  have months: "\<exists>m. name (mostActiveMonth example_stats_months) = Some (MONTH_NAMES ! (m - 1))
      \<and> commits (mostActiveMonth example_stats_months) = int (month_total utc example_months m)"
    by blast
  from most_active_selection [OF example_computeStats days valid' zone]
  show ?thesis
    using example_computeStats days valid tie sunday example_months_computeStats days2 tie2 months
      zone zone2 zone3 behind local3 peak3
    by blast
qed

text \<open>
  C3 as stated fails. In the first week of 2024 Monday and Sunday are tied with three
  contributions, Monday is met first and would win by the stated rule, and the handler
  answers Sunday, at UTC and also five hours behind it (the weekday is read from the record,
  not from the clock). With three contributions on the first day of January, February,
  October and November, at UTC, January is met first and the handler answers October.
\<close>

theorem first_encountered_tie_break_counterexample:
  "computeStats binary64 utc example_user = Inr example_stats
   \<and> calendarData example_stats = example_week
   \<and> weekday_total example_week 1 = 3 \<and> weekday_total example_week 0 = 3
   \<and> first_pos 1 (map weekday example_week) < first_pos 0 (map weekday example_week)
   \<and> spec_mostActiveWeekday example_week = Some (1, 3)
   \<and> element WEEKDAY_NAMES 1 = Some ''Monday''
   \<and> name (mostActiveDay example_stats) = Some ''Sunday''
   \<and> map_sum (\<lambda>e. e) (\<lambda>stats. name (mostActiveDay stats))
         (computeStats binary64 five_hours_behind example_user)
       = Inr (Some ''Sunday'')
   \<and> computeStats binary64 utc example_user_months = Inr example_stats_months
   \<and> calendarData example_stats_months = example_months
   \<and> month_total utc example_months 1 = 3 \<and> month_total utc example_months 10 = 3
   \<and> first_pos 1 (map (\<lambda>day. localMonth utc (date day)) example_months)
       < first_pos 10 (map (\<lambda>day. localMonth utc (date day)) example_months)
   \<and> spec_mostActiveMonth utc example_months = Some (1, 3)
   \<and> element MONTH_NAMES (1 - 1) = Some ''January''
   \<and> name (mostActiveMonth example_stats_months) = Some ''October''"
proof -
  have week: "calendarData example_stats = example_week
      \<and> weekday_total example_week 1 = 3 \<and> weekday_total example_week 0 = 3
      \<and> first_pos 1 (map weekday example_week) < first_pos 0 (map weekday example_week)"
    by code_simp
  have monday: "spec_mostActiveWeekday example_week = Some (1, 3)
      \<and> element WEEKDAY_NAMES 1 = Some ''Monday''
      \<and> name (mostActiveDay example_stats) = Some ''Sunday''"
    by code_simp
  have behind: "map_sum (\<lambda>e. e) (\<lambda>stats. name (mostActiveDay stats))
         (computeStats binary64 five_hours_behind example_user)
       = Inr (Some ''Sunday'')"
    by code_simp
  have months: "calendarData example_stats_months = example_months
      \<and> month_total utc example_months 1 = 3 \<and> month_total utc example_months 10 = 3
      \<and> first_pos 1 (map (\<lambda>day. localMonth utc (date day)) example_months)
          < first_pos 10 (map (\<lambda>day. localMonth utc (date day)) example_months)"
    by code_simp
  have january: "spec_mostActiveMonth utc example_months = Some (1, 3)
      \<and> element MONTH_NAMES (1 - 1) = Some ''January''
      \<and> name (mostActiveMonth example_stats_months) = Some ''October''"
    by code_simp
  from example_computeStats example_months_computeStats week monday behind months january
  show ?thesis by blast
qed

section \<open>Top languages\<close>

lemma language_names_Cons:
  "language_names (repo # repos)
     = (case primaryLanguage repo of None \<Rightarrow> [] | Some lang \<Rightarrow> [lang]) @ language_names repos"
  by (simp add: language_names_def)

lemma languages_foldl:
  "foldl (\<lambda>acc repo.
            case primaryLanguage repo of
              None \<Rightarrow> acc
            | Some lang \<Rightarrow> if lang = [] then acc else add_to acc lang 1) acc repos
   = foldl (\<lambda>obj x. add_to obj x 1) acc (filter (\<lambda>lang. lang \<noteq> []) (language_names repos))"
proof (induction repos arbitrary: acc)
  case Nil
  then show ?case by (simp add: language_names_def)
next
  case (Cons repo repos)
  then show ?case
    by (cases "primaryLanguage repo") (simp_all add: language_names_Cons)
qed

lemma languages_tally:
  "languages repos = tally (\<lambda>lang. lang) (\<lambda>_. 1) (filter (\<lambda>lang. lang \<noteq> []) (language_names repos))"
  by (simp add: languages_def tally_def languages_foldl)

lemma key_total_count: "key_total (\<lambda>x. x) (\<lambda>_. Suc 0) xs k = count_list xs k"
  by (induction xs) (simp_all add: key_total_def)

lemma tally_explicit:
  "tally key amount xs = map (\<lambda>k. (k, key_total key amount xs k)) (first_seen (map key xs))"
proof -
  have "map (\<lambda>e. (fst e, key_total key amount xs (fst e))) (tally key amount xs)
          = map (\<lambda>e. e) (tally key amount xs)"
    by (intro map_cong refl) (simp add: tally_member prod_eq_iff)
  then have "tally key amount xs
          = map (\<lambda>k. (k, key_total key amount xs k)) (map fst (tally key amount xs))"
    by (simp add: comp_def)
  then show ?thesis by (simp add: keys_tally)
qed

lemma entries_plain:
  assumes "\<forall>e \<in> set obj. \<not> is_array_index (fst e)"
  shows "entries obj = obj"
proof -
  from assms have "filter (\<lambda>p. is_array_index (fst p)) obj = []"
    by (simp add: filter_empty_conv)
  moreover from assms have "filter (\<lambda>p. \<not> is_array_index (fst p)) obj = obj"
    by (simp add: filter_id_conv)
  ultimately show ?thesis by (simp add: entries_def)
qed

lemma topLanguagesOf_length: "length (topLanguagesOf repos) \<le> 3"
  by (simp add: topLanguagesOf_def)

lemma topLanguagesOf_subset: "set (topLanguagesOf repos) \<subseteq> set (language_names repos)"
proof -
  have "set (topLanguagesOf repos) \<subseteq> fst ` set (sort_desc (entries (languages repos)))"
    unfolding topLanguagesOf_def by (auto dest: in_set_takeD)
  also have "\<dots> = fst ` set (languages repos)"
    by (simp add: sort_desc_def)
  also have "\<dots> \<subseteq> set (language_names repos)"
    by (auto simp: languages_tally dest: tally_member)
  finally show ?thesis .
qed

lemma topLanguagesOf_ordinary:
  assumes "list_all ordinary_name (language_names repos)"
  shows "topLanguagesOf repos = spec_topLanguages repos"
proof -
  let ?names = "language_names repos"
  from assms have names: "filter (\<lambda>lang. lang \<noteq> []) ?names = ?names"
    by (simp add: filter_id_conv list_all_iff ordinary_name_def)
  then have obj: "languages repos = map (\<lambda>lang. (lang, count_list ?names lang)) (first_seen ?names)"
    by (simp add: languages_tally tally_explicit key_total_count)
  with assms have "entries (languages repos) = languages repos"
    by (intro entries_plain) (auto simp: list_all_iff ordinary_name_def)
  with obj show ?thesis
    by (simp add: topLanguagesOf_def spec_topLanguages_def sort_desc_def take_map Let_def)
qed

lemma ranked_names:
  fixes names :: "string list"
  defines "ranked \<equiv> map fst (sort_key (\<lambda>p. - int (snd p))
                        (map (\<lambda>lang. (lang, count_list names lang)) (first_seen names)))"
  shows "sorted_wrt (ranks_before names) ranked" and "distinct ranked" and "set ranked = set names"
proof -
  let ?L = "map (\<lambda>lang. (lang, count_list names lang)) (first_seen names)"
  let ?f = "\<lambda>p :: string \<times> nat. - int (snd p)"
  let ?B = "\<lambda>a b :: string \<times> nat. first_pos (fst a) names < first_pos (fst b) names"
  have "sorted_wrt ?B ?L"
    by (simp add: sorted_wrt_map first_seen_order)
  then have "sorted_wrt (\<lambda>a b. ?f a < ?f b \<or> (?f a = ?f b \<and> ?B a b)) (sort_key ?f ?L)"
    by (rule sort_key_stable_order)
  then have "sorted_wrt (\<lambda>a b. ranks_before names (fst a) (fst b)) (sort_key ?f ?L)"
    by (rule sorted_wrt_mono_rel [rotated]) (auto simp: ranks_before_def)
  then show "sorted_wrt (ranks_before names) ranked"
    by (simp add: ranked_def sorted_wrt_map)
  have "map fst ?L = first_seen names"
    by (simp add: comp_def)
  then have "distinct (map fst ?L)"
    by simp
  then have "distinct ?L \<and> inj_on fst (set ?L)"
    by (simp only: distinct_map)
  then have "distinct (sort_key ?f ?L) \<and> inj_on fst (set (sort_key ?f ?L))"
    by simp
  then show "distinct ranked"
    unfolding ranked_def distinct_map by blast
  show "set ranked = set names"
    by (simp add: ranked_def image_image)
qed

lemma spec_topLanguages_ranking:
  fixes repos :: "Repository list"
  defines "names \<equiv> language_names repos"
  shows "distinct (spec_topLanguages repos)"
    and "length (spec_topLanguages repos) = min 3 (card (set names))"
    and "sorted_wrt (ranks_before names) (spec_topLanguages repos)"
    and "\<forall>a \<in> set (spec_topLanguages repos). \<forall>b \<in> set names - set (spec_topLanguages repos).
           ranks_before names a b"
proof -
  define ranked where "ranked = map fst (sort_key (\<lambda>p. - int (snd p))
                        (map (\<lambda>lang. (lang, count_list names lang)) (first_seen names)))"
  have top: "spec_topLanguages repos = take 3 ranked"
    by (simp add: spec_topLanguages_def ranked_def names_def Let_def)
  have sorted: "sorted_wrt (ranks_before names) ranked"
    and dist: "distinct ranked" and all: "set ranked = set names"
    unfolding ranked_def by (rule ranked_names)+
  from dist show "distinct (spec_topLanguages repos)"
    by (simp add: top)
  from dist all have "length ranked = card (set names)"
    by (metis distinct_card)
  then show "length (spec_topLanguages repos) = min 3 (card (set names))"
    by (simp add: top min.commute)
  from sorted have split: "sorted_wrt (ranks_before names) (take 3 ranked @ drop 3 ranked)"
    by simp
  then show "sorted_wrt (ranks_before names) (spec_topLanguages repos)"
    unfolding top sorted_wrt_append by blast
  have "set names - set (take 3 ranked) \<subseteq> set (drop 3 ranked)"
    using all by (metis Diff_subset_conv append_take_drop_id set_append subset_refl)
  with split show "\<forall>a \<in> set (spec_topLanguages repos).
      \<forall>b \<in> set names - set (spec_topLanguages repos). ranks_before names a b"
    unfolding top sorted_wrt_append by blast
qed

lemma topLanguagesOf_abc:
  assumes "ordinary_name a" and "ordinary_name b" and "ordinary_name c" and "distinct [a, b, c]"
  shows "topLanguagesOf (map (\<lambda>lang. mk_repo n (Some lang)) [a, a, b, c, c, c]) = [c, a, b]"
proof -
  let ?repos = "map (\<lambda>lang. mk_repo n (Some lang)) [a, a, b, c, c, c]"
  have names: "language_names ?repos = [a, a, b, c, c, c]"
    by (simp add: language_names_def mk_repo_def)
  with assms have "topLanguagesOf ?repos = spec_topLanguages ?repos"
    by (intro topLanguagesOf_ordinary) simp
  also from assms(4) have "\<dots> = [c, a, b]"
    unfolding spec_topLanguages_def names by (auto simp: Let_def)
  finally show ?thesis .
qed

text \<open>
  C5. \<open>topLanguages\<close> has at most three entries, each the primary language of a fetched
  repository, so that a repository with no primary language contributes nothing. The language
  names that GitHub reports are ordinary (not empty, not an array index and not a property of
  \<^verbatim>\<open>Object.prototype\<close>), and over such names \<open>topLanguages\<close> is the list that the specification
  words: the names are distinct, they are the three best (or all, if there are fewer) in the
  ranking by descending repository count, ties in the order in which the names are first met,
  and they are listed in that ranking. For languages \<open>a, a, b, c, c, c\<close> the result is
  \<open>c, a, b\<close>.
\<close>

theorem topLanguages_ranking:
  assumes "computeStats fl tz userData = Inr stats"
    and "names = language_names (nodes userData)"
  shows "length (topLanguages stats) \<le> 3
       \<and> set (topLanguages stats) \<subseteq> set names
       \<and> (list_all ordinary_name names \<longrightarrow>
             topLanguages stats = spec_topLanguages (nodes userData)
           \<and> distinct (topLanguages stats)
           \<and> length (topLanguages stats) = min 3 (card (set names))
           \<and> sorted_wrt (ranks_before names) (topLanguages stats)
           \<and> (\<forall>a \<in> set (topLanguages stats). \<forall>b \<in> set names - set (topLanguages stats).
                 ranks_before names a b))
       \<and> (ordinary_name a \<and> ordinary_name b \<and> ordinary_name c \<and> distinct [a, b, c] \<longrightarrow>
             topLanguagesOf (map (\<lambda>lang. mk_repo n (Some lang)) [a, a, b, c, c, c]) = [c, a, b])
       \<and> topLanguagesOf (map (\<lambda>lang. mk_repo n (Some lang)) [''A'', ''A'', ''B'', ''C'', ''C'', ''C''])
           = [''C'', ''A'', ''B'']"
proof -
  from assms(1) have top: "topLanguages stats = topLanguagesOf (nodes userData)"
    by (rule computeStats_Inr) simp
  have len: "length (topLanguages stats) \<le> 3"
    by (simp add: top topLanguagesOf_length)
  have sub: "set (topLanguages stats) \<subseteq> set names"
    by (simp add: top assms(2) topLanguagesOf_subset)
  have ranked: "topLanguages stats = spec_topLanguages (nodes userData)
      \<and> distinct (topLanguages stats)
      \<and> length (topLanguages stats) = min 3 (card (set names))
      \<and> sorted_wrt (ranks_before names) (topLanguages stats)
      \<and> (\<forall>a \<in> set (topLanguages stats). \<forall>b \<in> set names - set (topLanguages stats).
            ranks_before names a b)"
    if "list_all ordinary_name names"
  proof -
    from that have "topLanguages stats = spec_topLanguages (nodes userData)"
      by (simp add: top assms(2) topLanguagesOf_ordinary)
    then show ?thesis
      using spec_topLanguages_ranking [of "nodes userData"] by (simp add: assms(2))
  qed
  have "ordinary_name ''A''" and "ordinary_name ''B''" and "ordinary_name ''C''"
    by code_simp+
  then have "topLanguagesOf (map (\<lambda>lang. mk_repo n (Some lang)) [''A'', ''A'', ''B'', ''C'', ''C'', ''C''])
      = [''C'', ''A'', ''B'']"
    by (intro topLanguagesOf_abc) simp_all
  with len sub ranked topLanguagesOf_abc [of a b c n] show ?thesis
    by blast
qed

theorem topLanguages_ranking_witness:
  "computeStats binary64 utc example_user = Inr example_stats
   \<and> language_names (nodes example_user) = [''A'', ''A'', ''B'', ''C'', ''C'', ''C'']
   \<and> list_all ordinary_name (language_names (nodes example_user))
   \<and> topLanguages example_stats = [''C'', ''A'', ''B'']
   \<and> topLanguages example_stats = spec_topLanguages (nodes example_user)
   \<and> sorted_wrt (ranks_before (language_names (nodes example_user))) (topLanguages example_stats)
   \<and> length (topLanguages example_stats) \<le> 3"
proof -
  have names: "language_names (nodes example_user) = [''A'', ''A'', ''B'', ''C'', ''C'', ''C'']"
    by code_simp
  have ordinary: "list_all ordinary_name (language_names (nodes example_user))"
    by code_simp
  have top: "topLanguages example_stats = [''C'', ''A'', ''B'']"
    by code_simp
  from topLanguages_ranking [OF example_computeStats refl] ordinary
  have "length (topLanguages example_stats) \<le> 3
      \<and> topLanguages example_stats = spec_topLanguages (nodes example_user)
      \<and> sorted_wrt (ranks_before (language_names (nodes example_user))) (topLanguages example_stats)"
    by blast
  with example_computeStats names ordinary top show ?thesis by blast
qed

text \<open>
  The ranking is stated over ordinary names because a JavaScript object lists keys that are
  array indices first, in numeric order: were two repositories to have the languages \<^verbatim>\<open>"2"\<close>
  and \<^verbatim>\<open>"1"\<close>, in this order, the handler would list \<^verbatim>\<open>"1"\<close> first. No language of GitHub has
  such a name.
\<close>

lemma array_index_names_listed_first:
  "language_names numeral_repos = [''2'', ''1'']
   \<and> count_list (language_names numeral_repos) ''2'' = count_list (language_names numeral_repos) ''1''
   \<and> first_pos ''2'' (language_names numeral_repos) < first_pos ''1'' (language_names numeral_repos)
   \<and> spec_topLanguages numeral_repos = [''2'', ''1'']
   \<and> topLanguagesOf numeral_repos = [''1'', ''2'']
   \<and> computeStats binary64 utc (example_user\<lparr>nodes := numeral_repos\<rparr>)
       = Inr (example_stats\<lparr>starsEarned := 11, topLanguages := [''1'', ''2'']\<rparr>)"
proof -
  have names: "language_names numeral_repos = [''2'', ''1'']
      \<and> count_list (language_names numeral_repos) ''2''
          = count_list (language_names numeral_repos) ''1''
      \<and> first_pos ''2'' (language_names numeral_repos)
          < first_pos ''1'' (language_names numeral_repos)"
    by code_simp
  have tops: "spec_topLanguages numeral_repos = [''2'', ''1'']
      \<and> topLanguagesOf numeral_repos = [''1'', ''2'']"
    by code_simp
  have "computeStats binary64 utc (example_user\<lparr>nodes := numeral_repos\<rparr>)
       = Inr (example_stats\<lparr>starsEarned := 11, topLanguages := [''1'', ''2'']\<rparr>)"
    by code_simp
  with names tops show ?thesis by blast
qed

section \<open>The rounding of binary64 division\<close>


lemma power_int_nat: "0 \<le> n \<Longrightarrow> (2::rat) powi n = 2 ^ nat n"
  by (simp add: power_int_def)


lemma exponent_less:
  assumes "0 < x"
  shows "x < 2 powi (exponent x + 1)"
proof -
  obtain p q where pq: "quotient_of x = (p, q)" by (cases "quotient_of x")
  then have qpos: "0 < q" by (rule quotient_of_denom_pos)
  from pq have x: "x = of_int p / of_int q" by (rule quotient_of_div)
  with assms qpos have ppos: "0 < p" by (simp add: zero_less_divide_iff)
  define k where "k = bitlen p - bitlen q"
  from qpos have q1: "1 \<le> bitlen q"
    by (smt (verit) bitlen_eq_zero_iff bitlen_nonneg)
  from bitlen_bounds [OF ppos] have "p < (2::int) ^ nat (bitlen p)" by simp
  then have "(of_int p :: rat) < of_int (2 ^ nat (bitlen p))" by (simp only: of_int_less_iff)
  then have hi: "(of_int p :: rat) < 2 ^ nat (bitlen p)" by simp
  from bitlen_bounds [OF qpos] have "(2::int) ^ nat (bitlen q - 1) \<le> q" by simp
  then have "(of_int (2 ^ nat (bitlen q - 1)) :: rat) \<le> of_int q" by (simp only: of_int_le_iff)
  then have lo: "(2::rat) ^ nat (bitlen q - 1) \<le> of_int q" by simp
  have "of_int p / of_int q < (2::rat) ^ nat (bitlen p) / 2 ^ nat (bitlen q - 1)"
    using lo hi qpos ppos by (intro frac_less) simp_all
  also have "\<dots> = 2 powi (bitlen p) / 2 powi (bitlen q - 1)"
    using q1 bitlen_nonneg [of p] by (simp add: power_int_nat)
  also have "\<dots> = 2 powi (bitlen p - (bitlen q - 1))"
    by (rule power_int_diff [symmetric]) simp
  also have "bitlen p - (bitlen q - 1) = k + 1"
    by (simp add: k_def)
  finally have upper: "x < 2 powi (k + 1)" by (simp add: x)
  show ?thesis
  proof (cases "2 powi k \<le> x")
    case True
    with upper show ?thesis by (simp add: exponent_def pq k_def)
  next
    case False
    then show ?thesis by (simp add: exponent_def pq k_def)
  qed
qed



section \<open>The normalised count of the most active weekday\<close>











end
